theory Spec2Isabelle
  imports Main "HOL-Library.Log_Nat"
begin

section \<open>JavaScript values\<close>

text \<open>
  Recognition output is JSON. An object is the list of its own properties in the order
  \<^verbatim>\<open>Object.keys\<close> enumerates them; a property read takes the first entry with that key.
  A character is a UTF-16 code unit below 256. A JSON number is the rational it denotes.
  \<^verbatim>\<open>String(v)\<close> of a number (Number::toString of the language) is not code of the
  repository: the functions that call it take it as the parameter \<open>ns\<close>.
\<close>

datatype json =
    JNull
  | JBool bool
  | JNum rat
  | JStr string
  | JArr "json list"
  | JObj "(string \<times> json) list"

text \<open>\<^verbatim>\<open>obj[k]\<close> on a non-null value; \<open>None\<close> is \<^verbatim>\<open>undefined\<close>. The keys read by
  the program are never array indices, \<^verbatim>\<open>length\<close> or inherited properties.\<close>

fun getprop :: "json \<Rightarrow> string \<Rightarrow> json option" where
  "getprop (JObj kvs) k = map_of kvs k"
| "getprop _ k = None"

text \<open>\<^verbatim>\<open>a ?? b\<close>: the right operand is taken when the left is null or undefined.\<close>

fun nullish :: "json option \<Rightarrow> bool" where
  "nullish None = True"
| "nullish (Some JNull) = True"
| "nullish (Some _) = False"

definition coalesce :: "json option \<Rightarrow> json option \<Rightarrow> json option" where
  "coalesce a b = (if nullish a then b else a)"

text \<open>Truthiness of a value, and of a possibly undefined one.\<close>

fun truthy :: "json \<Rightarrow> bool" where
  "truthy JNull = False"
| "truthy (JBool b) = b"
| "truthy (JNum q) = (q \<noteq> 0)"
| "truthy (JStr s) = (s \<noteq> [])"
| "truthy (JArr _) = True"
| "truthy (JObj _) = True"

fun truthy_opt :: "json option \<Rightarrow> bool" where
  "truthy_opt None = False"
| "truthy_opt (Some v) = truthy v"

text \<open>\<^verbatim>\<open>typeof v === "object"\<close> holds of objects, arrays and null.\<close>

fun typeof_object :: "json option \<Rightarrow> bool" where
  "typeof_object (Some JNull) = True"
| "typeof_object (Some (JArr _)) = True"
| "typeof_object (Some (JObj _)) = True"
| "typeof_object _ = False"

section \<open>Characters and strings\<close>

definition is_digit :: "char \<Rightarrow> bool" where
  "is_digit c = (c \<in> set ''0123456789'')"

text \<open>The class \<^verbatim>\<open>\s\<close> on code units below 256: tab, line feed, vertical tab, form feed,
  carriage return, space, no-break space.\<close>

definition ws_chars :: "char list" where
  "ws_chars = [CHR 0x09, CHR 0x0A, CHR 0x0B, CHR 0x0C, CHR 0x0D, CHR 0x20, CHR 0xA0]"

definition is_ws :: "char \<Rightarrow> bool" where
  "is_ws c = (c \<in> set ws_chars)"

definition to_lower :: "char \<Rightarrow> char" where
  "to_lower c =
     (let n = (of_char c :: int)
      in if (0x41 \<le> n \<and> n \<le> 0x5A) \<or> (0xC0 \<le> n \<and> n \<le> 0xDE \<and> n \<noteq> 0xD7)
         then char_of (n + 32) else c)"

definition to_upper :: "char \<Rightarrow> char" where
  "to_upper c =
     (let n = (of_char c :: int)
      in if 0x61 \<le> n \<and> n \<le> 0x7A then char_of (n - 32) else c)"

definition toLowerCase :: "string \<Rightarrow> string" where
  "toLowerCase s = map to_lower s"

text \<open>\<^verbatim>\<open>parts.join(" ")\<close>\<close>

fun join_sp :: "string list \<Rightarrow> string" where
  "join_sp [] = []"
| "join_sp [p] = p"
| "join_sp (p # q # ps) = p @ '' '' @ join_sp (q # ps)"

text \<open>The decimal digits of an integer that is not negative, and the value of a digit
  string.\<close>

definition digit_char :: "int \<Rightarrow> char" where
  "digit_char d = char_of (48 + d)"

definition digit_val :: "char \<Rightarrow> int" where
  "digit_val c = of_char c - 48"

function show_dec :: "int \<Rightarrow> string" where
  "show_dec n = (if n < 10 then [digit_char n] else show_dec (n div 10) @ [digit_char (n mod 10)])"
  by pat_completeness auto
termination
  by (relation "measure nat") auto

declare show_dec.simps [simp del]

definition digits_val :: "string \<Rightarrow> int" where
  "digits_val s = foldl (\<lambda>a c. 10 * a + digit_val c) 0 s"

section \<open>Regular expressions\<close>

text \<open>
  The patterns of the program are written as terms of \<open>rx\<close> and run by a backtracking
  matcher with the priorities of the language: alternatives left to right, quantifiers
  greedy. \<open>rx_match r s\<close> lists, in priority order, what can remain of \<open>s\<close> after a
  match of \<open>r\<close> at its start. An iteration of a quantifier that consumes nothing is
  rejected, as the language does.
\<close>

datatype rx =
    Eps
  | Cls "char list"
  | Seq rx rx
  | Alt rx rx
  | Rep rx nat "nat option"

primrec rx_size :: "rx \<Rightarrow> nat" where
  "rx_size Eps = 1"
| "rx_size (Cls cs) = 1"
| "rx_size (Seq a b) = Suc (rx_size a + rx_size b)"
| "rx_size (Alt a b) = Suc (rx_size a + rx_size b)"
| "rx_size (Rep r lo hi) = Suc (rx_size r)"

function rx_match :: "rx \<Rightarrow> string \<Rightarrow> string list" where
  "rx_match Eps s = [s]"
| "rx_match (Cls cs) s = (case s of [] \<Rightarrow> [] | c # t \<Rightarrow> if c \<in> set cs then [t] else [])"
| "rx_match (Seq a b) s = concat (map (rx_match b) (rx_match a s))"
| "rx_match (Alt a b) s = rx_match a s @ rx_match b s"
| "rx_match (Rep r lo hi) s =
     (if hi = Some 0 then []
      else concat (map (rx_match (Rep r (lo - 1) (map_option (\<lambda>h. h - 1) hi)))
                       (filter (\<lambda>t. length t < length s) (rx_match r s))))
     @ (if lo = 0 then [s] else [])"
  by pat_completeness auto
termination
  by (relation "measures [\<lambda>(r, s). rx_size r, \<lambda>(r, s). length s]") auto

declare rx_match.simps [simp del]

text \<open>One attempt at the start of \<open>s\<close> of a pattern made of an uncaptured prefix and a
  capture group that ends it: the captured text and what follows the match.\<close>

definition rx_at :: "rx \<Rightarrow> rx \<Rightarrow> string \<Rightarrow> (string \<times> string) option" where
  "rx_at pre grp s =
     (case concat (map (\<lambda>t. map (\<lambda>u. (take (length t - length u) t, u)) (rx_match grp t))
                       (rx_match pre s)) of
        [] \<Rightarrow> None
      | x # _ \<Rightarrow> Some x)"

text \<open>\<^verbatim>\<open>s.match(re)\<close> without the global flag: the leftmost position where the pattern
  matches.\<close>

fun rx_search :: "rx \<Rightarrow> rx \<Rightarrow> string \<Rightarrow> (string \<times> string) option" where
  "rx_search pre grp [] = rx_at pre grp []"
| "rx_search pre grp (c # s) =
     (case rx_at pre grp (c # s) of Some x \<Rightarrow> Some x | None \<Rightarrow> rx_search pre grp s)"

text \<open>\<^verbatim>\<open>Array.from(s.matchAll(re)).map((m) => m[1])\<close>: the captures of the successive
  matches, each search starting where the last match ended. The patterns of the program
  match no empty string; after an empty match at the start the search moves on by one
  character.\<close>

function rx_matchAll :: "rx \<Rightarrow> rx \<Rightarrow> string \<Rightarrow> string list" where
  "rx_matchAll pre grp s =
     (case rx_search pre grp s of
        None \<Rightarrow> []
      | Some (cap, rest) \<Rightarrow>
          if length rest < length s then cap # rx_matchAll pre grp rest
          else (case s of [] \<Rightarrow> [cap] | _ # s' \<Rightarrow> cap # rx_matchAll pre grp s'))"
  by pat_completeness auto
termination
  by (relation "measure (\<lambda>(pre, grp, s). length s)") auto

declare rx_matchAll.simps [simp del]

definition rx_D :: rx where
  "rx_D = Cls ''0123456789''"

definition rx_WS :: rx where
  "rx_WS = Cls ws_chars"

text \<open>A literal under the flag \<^verbatim>\<open>i\<close>: each character in either case.\<close>

fun lit_ci :: "string \<Rightarrow> rx" where
  "lit_ci [] = Eps"
| "lit_ci [c] = Cls [to_lower c, to_upper c]"
| "lit_ci (c # cs) = Seq (Cls [to_lower c, to_upper c]) (lit_ci cs)"

section \<open>Text flattening\<close>

text \<open>\<^verbatim>\<open>collectStrings(obj, out)\<close> appends every string leaf to \<open>out\<close>, depth first.\<close>

fun collectStrings :: "json \<Rightarrow> string list" where
  "collectStrings (JStr s) = [s]"
| "collectStrings (JArr vs) = concat (map collectStrings vs)"
| "collectStrings (JObj kvs) = concat (map (\<lambda>kv. collectStrings (snd kv)) kvs)"
| "collectStrings _ = []"

definition allText :: "json \<Rightarrow> string" where
  "allText ocrJson = join_sp (collectStrings ocrJson)"

section \<open>Field extraction (route.ts)\<close>

text \<open>The local helper \<^verbatim>\<open>toStr\<close>: strings and numbers are rendered, anything else
  (also null and undefined) is null.\<close>

fun toStr :: "(rat \<Rightarrow> string) \<Rightarrow> json option \<Rightarrow> string option" where
  "toStr ns (Some (JStr s)) = Some s"
| "toStr ns (Some (JNum q)) = Some (ns q)"
| "toStr ns _ = None"

text \<open>Truthiness of a \<^verbatim>\<open>string | null\<close>.\<close>

fun nonempty :: "string option \<Rightarrow> bool" where
  "nonempty (Some s) = (s \<noteq> [])"
| "nonempty None = False"

text \<open>\<^verbatim>\<open>/(\d{9})/\<close> and \<^verbatim>\<open>/(\d{4,})/g\<close>\<close>

definition rx_routing :: rx where
  "rx_routing = Rep rx_D 9 (Some 9)"

definition rx_digitGroup :: rx where
  "rx_digitGroup = Rep rx_D 4 None"

definition structured_routing :: "(rat \<Rightarrow> string) \<Rightarrow> json \<Rightarrow> string option" where
  "structured_routing ns ocrJson =
     toStr ns (coalesce (getprop ocrJson ''routing_number'')
                 (coalesce (getprop ocrJson ''routing'') (getprop ocrJson ''aba'')))"

definition structured_account :: "(rat \<Rightarrow> string) \<Rightarrow> json \<Rightarrow> string option" where
  "structured_account ns ocrJson =
     toStr ns (coalesce (getprop ocrJson ''account_number'') (getprop ocrJson ''account''))"

definition structured_check :: "(rat \<Rightarrow> string) \<Rightarrow> json \<Rightarrow> string option" where
  "structured_check ns ocrJson =
     toStr ns (coalesce (getprop ocrJson ''check_number'')
                 (coalesce (getprop ocrJson ''check_no'') (getprop ocrJson ''cheque_number'')))"

definition extractCheckId :: "(rat \<Rightarrow> string) \<Rightarrow> json \<Rightarrow> string option" where
  "extractCheckId ns ocrJson =
     (let routing = structured_routing ns ocrJson;
          account = structured_account ns ocrJson;
          check = structured_check ns ocrJson
      in if nonempty routing \<and> nonempty account \<and> nonempty check
         then Some (the routing @ ''_'' @ the account @ ''_'' @ the check)
         else
           (let text = allText ocrJson
            in (case rx_search Eps rx_routing text of
                  None \<Rightarrow> None
                | Some (routingNum, _) \<Rightarrow>
                   (let digitGroups = rx_matchAll Eps rx_digitGroup text;
                        filtered = filter (\<lambda>g. g \<noteq> routingNum) digitGroups
                    in if length filtered < 2 then None
                       else Some (routingNum @ ''_'' @ (filtered ! 0) @ ''_'' @ (filtered ! 1))))))"

text \<open>
  \<^verbatim>\<open>/(?:\$|USD\s?)\s*([0-9]{1,3}(?:[.,][0-9]{3})*(?:[.,][0-9]{2}))/i\<close> is the prefix
  \<open>rx_currency\<close> followed by the group \<open>rx_money\<close>;
  \<^verbatim>\<open>/([0-9]{1,3}(?:[.,][0-9]{3})*[.,][0-9]{2})/\<close> is the group \<open>rx_money\<close> alone.
\<close>

definition rx_currency :: rx where
  "rx_currency =
     Seq (Alt (Cls ''$'') (Seq (lit_ci ''USD'') (Rep rx_WS 0 (Some 1)))) (Rep rx_WS 0 None)"

definition rx_money :: rx where
  "rx_money =
     Seq (Rep rx_D 1 (Some 3))
       (Seq (Rep (Seq (Cls ''.,'') (Rep rx_D 3 (Some 3))) 0 None)
            (Seq (Cls ''.,'') (Rep rx_D 2 (Some 2))))"

text \<open>\<^verbatim>\<open>.replace(/,/g, ".")\<close>\<close>

definition commas_to_points :: "string \<Rightarrow> string" where
  "commas_to_points s = map (\<lambda>c. if c = CHR '','' then CHR ''.'' else c) s"

text \<open>\<^verbatim>\<open>.replace(/[^\d]/g, " ")\<close>\<close>

definition blank_nondigits :: "string \<Rightarrow> string" where
  "blank_nondigits s = map (\<lambda>c. if is_digit c then c else CHR '' '') s"

text \<open>\<^verbatim>\<open>.split(/\s+/)\<close>: the pieces between the maximal runs of white space, the first
  and the last possibly empty.\<close>

function split_ws :: "string \<Rightarrow> string list" where
  "split_ws s =
     (let w = takeWhile (\<lambda>c. \<not> is_ws c) s; r = dropWhile (\<lambda>c. \<not> is_ws c) s
      in if r = [] then [w] else w # split_ws (dropWhile is_ws (tl r)))"
  by pat_completeness auto
termination
proof (relation "measure length", simp, goal_cases)
  case (1 s w r)
  have "length (dropWhile is_ws (tl r)) \<le> length (tl r)"
    by (rule length_dropWhile_le)
  also have "\<dots> < length r"
    using 1 by (cases r) auto
  also have "\<dots> \<le> length s"
    using 1 by (simp add: length_dropWhile_le)
  finally show ?case by simp
qed

declare split_ws.simps [simp del]

text \<open>The last resort of \<^verbatim>\<open>extractAmount\<close>: a digit run read as dollars and cents.
  \<^verbatim>\<open>Number(dollars)\<close> of at most five digits is exact, and renders in decimal.\<close>

definition dollars_cents :: "string \<Rightarrow> string" where
  "dollars_cents g =
     (let d = take (length g - 2) g;
          dollars = (if d = [] then ''0'' else d);
          cents = drop (length g - 2) g
      in show_dec (digits_val dollars) @ ''.'' @ cents)"

definition extractAmount :: "(rat \<Rightarrow> string) \<Rightarrow> json \<Rightarrow> string option" where
  "extractAmount ns ocrJson =
     (let structured =
            (case toStr ns (getprop ocrJson ''amount'') of Some s \<Rightarrow> Some s | None \<Rightarrow>
             case toStr ns (getprop ocrJson ''amount_numeric'') of Some s \<Rightarrow> Some s | None \<Rightarrow>
             case toStr ns (getprop ocrJson ''legal_amount'') of Some s \<Rightarrow> Some s | None \<Rightarrow>
             toStr ns (getprop ocrJson ''written_amount''))
      in if nonempty structured then structured
         else
           (let text = allText ocrJson
            in case rx_search rx_currency rx_money text of
                 Some (m, _) \<Rightarrow> Some (commas_to_points m)
               | None \<Rightarrow>
                  (case rx_search Eps rx_money text of
                     Some (m, _) \<Rightarrow> Some (commas_to_points m)
                   | None \<Rightarrow>
                      (let digitGroups = filter (\<lambda>g. g \<noteq> []) (split_ws (blank_nondigits text));
                           candidates = filter (\<lambda>g. 4 \<le> length g \<and> length g \<le> 7) digitGroups
                       in if length candidates = 1 then Some (dollars_cents (candidates ! 0))
                          else if 1 < length candidates
                          then Some (dollars_cents
                                 (sort_key (\<lambda>g. - int (length g)) candidates ! 0))
                          else None))))"

text \<open>\<^verbatim>\<open>/endorse|endorsement|signed by|signature/i\<close>\<close>

definition rx_endorse :: rx where
  "rx_endorse =
     Alt (lit_ci ''endorse'') (Alt (lit_ci ''endorsement'')
       (Alt (lit_ci ''signed by'') (lit_ci ''signature'')))"

definition detectEndorsement :: "json \<Rightarrow> bool" where
  "detectEndorsement ocrJson =
     (if getprop ocrJson ''endorsement'' = Some (JBool True) then True
      else if getprop ocrJson ''signature_present'' = Some (JBool True) then True
      else if truthy_opt (getprop ocrJson ''endorsement_image'') then True
      else rx_search Eps rx_endorse (toLowerCase (allText ocrJson)) \<noteq> None)"

section \<open>Ledger helpers (transaction processing)\<close>

text \<open>
  The parameter objects. An optional field that is absent or null is \<open>None\<close>. A
  \<^verbatim>\<open>Decimal\<close> amount is the rational it denotes.
\<close>

record transaction_params =
  idempotency_key :: "string option"
  transaction_type :: string
  internal_account_id :: int
  amount :: rat
  bill_pay_rule_id :: "int option"
  transfer_rule_id :: "int option"
  check_number :: "string option"

record transaction_data = transaction_params +
  direction :: string

datatype tx_status = approved | denied

record transaction_row = transaction_data +
  status :: tx_status

text \<open>What a storage call can throw: the client's known request error with its code, or
  anything else.\<close>

datatype thrown = PrismaClientKnownRequestError string | OtherError string

datatype or_clause = ByIdempotencyKey string | ByCheckNumber string

record where_clause =
  w_transaction_type :: string
  w_internal_account_id :: int
  w_amount :: rat
  w_bill_pay_rule_id :: "int option"
  w_transfer_rule_id :: "int option"
  w_OR :: "or_clause list"

text \<open>The storage handle \<^verbatim>\<open>tx\<close>: what \<^verbatim>\<open>tx.transaction.create\<close> and
  \<^verbatim>\<open>tx.transaction.findFirst\<close> answer. \<open>Inl\<close> is a throw.\<close>

record tx =
  create :: "transaction_row \<Rightarrow> thrown + transaction_row"
  findFirst :: "where_clause \<Rightarrow> thrown + transaction_row option"

text \<open>Truthiness of an optional rule id: present and not zero.\<close>

fun truthy_id :: "int option \<Rightarrow> int option" where
  "truthy_id (Some n) = (if n = 0 then None else Some n)"
| "truthy_id None = None"

definition row_of :: "transaction_data \<Rightarrow> tx_status \<Rightarrow> transaction_row" where
  "row_of d st =
     \<lparr> idempotency_key = idempotency_key d, transaction_type = transaction_type d,
       internal_account_id = internal_account_id d, amount = amount d,
       bill_pay_rule_id = bill_pay_rule_id d, transfer_rule_id = transfer_rule_id d,
       check_number = check_number d, direction = direction d, status = st \<rparr>"

definition createDeniedTransaction :: "tx \<Rightarrow> transaction_data \<Rightarrow> thrown + transaction_row" where
  "createDeniedTransaction t d = create t (row_of d denied)"

text \<open>The query of \<open>findExistingTransaction\<close>: \<^verbatim>\<open>baseWhere\<close> and the \<^verbatim>\<open>OR\<close> clauses.\<close>

definition where_of :: "transaction_params \<Rightarrow> where_clause" where
  "where_of params =
     \<lparr> w_transaction_type = transaction_type params,
       w_internal_account_id = internal_account_id params,
       w_amount = amount params,
       w_bill_pay_rule_id = truthy_id (bill_pay_rule_id params),
       w_transfer_rule_id = truthy_id (transfer_rule_id params),
       w_OR =
         (if nonempty (idempotency_key params)
          then [ByIdempotencyKey (the (idempotency_key params))] else [])
         @ (case check_number params of Some c \<Rightarrow> [ByCheckNumber c] | None \<Rightarrow> []) \<rparr>"

text \<open>\<open>findExistingTransaction\<close> returns the queries it sent to the storage, in order, and
  its result.\<close>

definition findExistingTransaction ::
  "tx \<Rightarrow> transaction_params \<Rightarrow> where_clause list \<times> (thrown + transaction_row option)" where
  "findExistingTransaction t params =
     (if \<not> nonempty (idempotency_key params) \<and> \<not> nonempty (check_number params)
      then ([], Inr None)
      else ([where_of params], findFirst t (where_of params)))"

record outcome =
  success :: bool
  message :: string
  duplicate :: "bool option"

definition createApprovedTransaction ::
  "tx \<Rightarrow> transaction_data \<Rightarrow> string \<Rightarrow> thrown + outcome" where
  "createApprovedTransaction t d successMessage =
     (case create t (row_of d approved) of
        Inr _ \<Rightarrow> Inr \<lparr> success = True, message = successMessage, duplicate = None \<rparr>
      | Inl e \<Rightarrow>
          if nonempty (idempotency_key d) \<and> e = PrismaClientKnownRequestError ''P2002''
          then Inr \<lparr> success = True,
                     message = successMessage @ '' (idempotency key found).'',
                     duplicate = Some True \<rparr>
          else Inl e)"

section \<open>Two submissions against one table\<close>

text \<open>Modelled from the spec: the table of transactions is not in these sources. A lookup
  finds the first record that agrees with the base criteria and with one of the \<^verbatim>\<open>OR\<close>
  clauses.\<close>

definition or_matches :: "or_clause \<Rightarrow> transaction_row \<Rightarrow> bool" where
  "or_matches c r =
     (case c of
        ByIdempotencyKey k \<Rightarrow> idempotency_key r = Some k
      | ByCheckNumber n \<Rightarrow> check_number r = Some n)"

definition matches :: "where_clause \<Rightarrow> transaction_row \<Rightarrow> bool" where
  "matches w r =
     (transaction_type r = w_transaction_type w
      \<and> internal_account_id r = w_internal_account_id w
      \<and> amount r = w_amount w
      \<and> (case w_bill_pay_rule_id w of None \<Rightarrow> True | Some i \<Rightarrow> bill_pay_rule_id r = Some i)
      \<and> (case w_transfer_rule_id w of None \<Rightarrow> True | Some i \<Rightarrow> transfer_rule_id r = Some i)
      \<and> list_ex (\<lambda>c. or_matches c r) (w_OR w))"

text \<open>Modelled from the spec: the uniqueness constraint of the table, which is not in these
  sources. Two approved records clash when they agree on transaction type, account,
  amount and rule references and share an idempotency key or a check number.\<close>

definition conflicts :: "transaction_row \<Rightarrow> transaction_row \<Rightarrow> bool" where
  "conflicts r r' =
     (status r = approved \<and> status r' = approved
      \<and> transaction_type r = transaction_type r'
      \<and> internal_account_id r = internal_account_id r'
      \<and> amount r = amount r'
      \<and> bill_pay_rule_id r = bill_pay_rule_id r'
      \<and> transfer_rule_id r = transfer_rule_id r'
      \<and> ((idempotency_key r \<noteq> None \<and> idempotency_key r = idempotency_key r')
           \<or> (check_number r \<noteq> None \<and> check_number r = check_number r')))"

text \<open>Modelled from the spec: the storage handle over a table with that constraint. An
  insert that clashes with a record of the table fails with the code P2002.\<close>

definition table_tx :: "transaction_row list \<Rightarrow> tx" where
  "table_tx rows =
     \<lparr> create = (\<lambda>r. if list_ex (conflicts r) rows
                        then Inl (PrismaClientKnownRequestError ''P2002'') else Inr r),
       findFirst = (\<lambda>w. Inr (find (matches w) rows)) \<rparr>"

text \<open>Modelled from the spec: the table after an insert, which adds the record when it
  does not fail.\<close>

definition table_after_create :: "transaction_row list \<Rightarrow> transaction_row \<Rightarrow> transaction_row list" where
  "table_after_create rows r =
     (case create (table_tx rows) r of Inr r' \<Rightarrow> rows @ [r'] | Inl e \<Rightarrow> rows)"

text \<open>Modelled from the spec: the procedure that calls the helpers is not in these sources.
  A submission looks the record up; when one is found it reports success with the
  duplicate flag and writes nothing; otherwise it calls \<open>createApprovedTransaction\<close>.
  Each storage call is one atomic step.\<close>

datatype phase = Received | Not_found | Finished "thrown + outcome"

definition params_of :: "transaction_data \<Rightarrow> transaction_params" where
  "params_of d =
     \<lparr> idempotency_key = idempotency_key d, transaction_type = transaction_type d,
       internal_account_id = internal_account_id d, amount = amount d,
       bill_pay_rule_id = bill_pay_rule_id d, transfer_rule_id = transfer_rule_id d,
       check_number = check_number d \<rparr>"

definition submit_step ::
  "string \<Rightarrow> transaction_data \<Rightarrow> transaction_row list \<Rightarrow> phase \<Rightarrow> transaction_row list \<times> phase" where
  "submit_step msg d rows p =
     (case p of
        Received \<Rightarrow>
          (case snd (findExistingTransaction (table_tx rows) (params_of d)) of
             Inl e \<Rightarrow> (rows, Finished (Inl e))
           | Inr (Some found) \<Rightarrow>
               (rows, Finished (Inr \<lparr> success = True, message = msg, duplicate = Some True \<rparr>))
           | Inr None \<Rightarrow> (rows, Not_found))
      | Not_found \<Rightarrow>
          (table_after_create rows (row_of d approved),
           Finished (createApprovedTransaction (table_tx rows) d msg))
      | Finished x \<Rightarrow> (rows, Finished x))"

text \<open>Modelled from the spec: two submissions of the same data run concurrently. The
  schedule says whose step comes next, the first submission's or the second's.\<close>

fun run ::
  "string \<Rightarrow> transaction_data \<Rightarrow> bool list \<Rightarrow> transaction_row list \<times> phase \<times> phase
     \<Rightarrow> transaction_row list \<times> phase \<times> phase" where
  "run msg d [] st = st"
| "run msg d (who # sched) (rows, p, q) =
     (if who
      then (case submit_step msg d rows p of (rows', p') \<Rightarrow> run msg d sched (rows', p', q))
      else (case submit_step msg d rows q of (rows', q') \<Rightarrow> run msg d sched (rows', p, q')))"

text \<open>The states that two such submissions can reach from a table \<open>rows\<close>, and the number
  of steps a submission still has to take.\<close>

definition plain :: "string \<Rightarrow> phase" where
  "plain msg = Finished (Inr \<lparr> success = True, message = msg, duplicate = None \<rparr>)"

definition waiting :: "phase \<Rightarrow> bool" where
  "waiting p = (p = Received \<or> p = Not_found)"

definition duplicate_or_waiting :: "phase \<Rightarrow> bool" where
  "duplicate_or_waiting p =
     (waiting p \<or> (\<exists>out. p = Finished (Inr out) \<and> success out \<and> duplicate out = Some True))"

definition consistent ::
  "string \<Rightarrow> transaction_data \<Rightarrow> transaction_row list \<Rightarrow> transaction_row list \<times> phase \<times> phase \<Rightarrow> bool" where
  "consistent msg d rows st =
     (case st of (t, p, q) \<Rightarrow>
        (t = rows \<and> waiting p \<and> waiting q)
        \<or> (t = rows @ [row_of d approved]
            \<and> ((p = plain msg \<and> duplicate_or_waiting q) \<or> (q = plain msg \<and> duplicate_or_waiting p))))"

fun remaining :: "phase \<Rightarrow> nat" where
  "remaining Received = 2"
| "remaining Not_found = 1"
| "remaining (Finished x) = 0"

section \<open>Numbers\<close>

text \<open>
  A number of the language is an IEEE 754 double: not-a-number, an infinity, or a finite
  value kept as the rational it equals (the two zeros are not told apart; nothing below
  depends on the sign of zero). \<open>to_double\<close> rounds a rational to the nearest double,
  ties to the even significand: 53 bits of significand, least exponent \<open>-1074\<close>,
  overflow to an infinity.
\<close>

datatype number = NaN | PosInf | NegInf | Num rat

definition pow2 :: "int \<Rightarrow> rat" where
  "pow2 e = (if 0 \<le> e then 2 ^ nat e else 1 / 2 ^ nat (- e))"

text \<open>The integer part of the binary logarithm of a positive rational.\<close>

definition floorlog2 :: "rat \<Rightarrow> int" where
  "floorlog2 q =
     (let (p, d) = quotient_of q; k = bitlen p - bitlen d
      in if pow2 k \<le> q then k else k - 1)"

definition round_half_even :: "rat \<Rightarrow> int" where
  "round_half_even q =
     (let f = \<lfloor>q\<rfloor>; r = q - of_int f
      in if r < 1 / 2 then f else if 1 / 2 < r then f + 1 else if even f then f else f + 1)"

definition to_double :: "rat \<Rightarrow> number" where
  "to_double q =
     (if q = 0 then Num 0
      else
        (let a = \<bar>q\<bar>;
             e = max (floorlog2 a - 52) (- 1074);
             v = of_int (round_half_even (a / pow2 e)) * pow2 e
         in if pow2 1024 \<le> v then (if q < 0 then NegInf else PosInf)
            else Num (if q < 0 then - v else v)))"

text \<open>\<^verbatim>\<open>Math.round\<close>: the nearest integer, ties upwards.\<close>

fun Math_round :: "number \<Rightarrow> number" where
  "Math_round (Num x) = Num (of_int \<lfloor>x + 1 / 2\<rfloor>)"
| "Math_round n = n"

text \<open>
  \<^verbatim>\<open>Number(s)\<close> on the strings that reach it, which hold only digits, points and minus
  signs: the empty string is 0; an optional minus sign, then digits with an optional
  point and fraction, or a point and digits, is that decimal rounded to a double; anything
  else is not-a-number.
\<close>

definition decimal_value :: "string \<Rightarrow> rat option" where
  "decimal_value b =
     (let ip = takeWhile is_digit b; r = dropWhile is_digit b
      in case r of
           [] \<Rightarrow> if ip = [] then None else Some (of_int (digits_val ip))
         | c # fp \<Rightarrow>
             if c = CHR ''.'' \<and> list_all is_digit fp \<and> (ip \<noteq> [] \<or> fp \<noteq> [])
             then Some (of_int (digits_val ip) + of_int (digits_val fp) / 10 ^ length fp)
             else None)"

definition Number_of :: "string \<Rightarrow> number" where
  "Number_of s =
     (case s of
        [] \<Rightarrow> Num 0
      | c # b \<Rightarrow>
          if c = CHR ''-''
          then (case decimal_value b of None \<Rightarrow> NaN | Some q \<Rightarrow> to_double (- q))
          else (case decimal_value s of None \<Rightarrow> NaN | Some q \<Rightarrow> to_double q))"

section \<open>The request handler (route.ts)\<close>

datatype 'a result = Thrown | Ok 'a

fun normalizeOcrSpaceResult :: "json \<Rightarrow> string" where
  "normalizeOcrSpaceResult resp =
     (case getprop resp ''ParsedResults'' of
        Some (JArr (first # _)) \<Rightarrow>
          (if truthy first
           then (case getprop first ''ParsedText'' of Some (JStr s) \<Rightarrow> s | _ \<Rightarrow> [])
           else [])
      | _ \<Rightarrow> (case getprop resp ''ParsedText'' of Some (JStr s) \<Rightarrow> s | _ \<Rightarrow> []))"

text \<open>What the request to the plain recognition provider comes to: a transport failure, a
  response that is not a success (status and text), or a success with its body parsed
  (\<open>None\<close> when the body is no JSON).\<close>

datatype fetch_outcome = TransportFailure | NotOk nat string | Body "json option"

fun callOcrSpace :: "fetch_outcome \<Rightarrow> json result" where
  "callOcrSpace TransportFailure = Thrown"
| "callOcrSpace (NotOk st txt) = Thrown"
| "callOcrSpace (Body None) = Ok (JObj [])"
| "callOcrSpace (Body (Some j)) = Ok (if truthy j \<and> typeof_object (Some j) then j else JObj [])"

text \<open>The answer of the authentication helper, which is not part of these sources.\<close>

record auth_result =
  auth_ok :: bool
  auth_status :: "nat option"
  auth_body :: "json option"
  supabaseUser_id :: "string option"

text \<open>
  Everything the handler reads from outside: the authentication result, which of the two
  images the form holds (reading the bytes of an image that is there does not throw), the
  configuration, what the calls to the recognition providers
  come to (\<open>vision_call\<close> is what \<^verbatim>\<open>callOpenAIVisionCombined\<close> returns or its throw), the
  answers of the two storage lookups (the id of the user found, the account number of the
  account found), and the request's authorization header.
\<close>

record env =
  auth :: "auth_result result"
  form :: "(bool \<times> bool) result"
  OPENAI_API_KEY :: "string option"
  CHECK_OCR_API_URL :: "string option"
  CHECK_OCR_API_KEY :: "string option"
  INTERNAL_API_KEY :: "string option"
  APP_BASE_URL :: "string option"
  authorization :: "string option"
  vision_call :: "json result"
  ocr_front_call :: fetch_outcome
  ocr_back_call :: fetch_outcome
  user_findUnique :: "string \<Rightarrow> int option result"
  internalAccount_findFirst :: "int \<Rightarrow> string option result"

record response =
  r_status :: nat
  r_body :: json

text \<open>The deposit request sent to \<^verbatim>\<open>/api/transactions\<close>.\<close>

record forward =
  fw_url :: string
  fw_Authorization :: string
  fw_Idempotency_Key :: string
  fw_destination_account_number :: string
  fw_requested_amount :: number
  fw_description :: string
  fw_check_number :: string

definition ENABLE_OCR_DEBUG :: bool where
  "ENABLE_OCR_DEBUG = True"

definition error_response :: "nat \<Rightarrow> string \<Rightarrow> response" where
  "error_response st msg = \<lparr> r_status = st, r_body = JObj [(''error'', JStr msg)] \<rparr>"

definition internal_error :: response where
  "internal_error = error_response 500 ''Internal server error''"

text \<open>Lines 327 to 372: the recognition results \<open>(frontResp, backResp, combinedResp)\<close>, or
  the error response.\<close>

definition recognise :: "env \<Rightarrow> response + (json \<times> json \<times> json option)" where
  "recognise e =
     (if nonempty (OPENAI_API_KEY e)
      then (case vision_call e of
              Thrown \<Rightarrow> Inl (error_response 502 ''OCR/vision service error'')
            | Ok c \<Rightarrow>
                Inr (if truthy c \<and> typeof_object (getprop c ''front'')
                     then the (getprop c ''front'') else JObj [],
                     if truthy c \<and> typeof_object (getprop c ''back'')
                     then the (getprop c ''back'') else JObj [],
                     Some c))
      else if \<not> nonempty (CHECK_OCR_API_URL e) \<or> \<not> nonempty (CHECK_OCR_API_KEY e)
      then Inl (error_response 500 ''OCR service not configured.'')
      else (case callOcrSpace (ocr_front_call e) of
              Thrown \<Rightarrow> Inl (error_response 502 ''OCR/vision service error'')
            | Ok f \<Rightarrow>
               (case callOcrSpace (ocr_back_call e) of
                  Thrown \<Rightarrow> Inl (error_response 502 ''OCR/vision service error'')
                | Ok b \<Rightarrow> Inr (f, b, None))))"

text \<open>Lines 403 to 413. Reading a property of null throws.\<close>

definition raw_text :: "json \<Rightarrow> string result" where
  "raw_text r =
     (if r = JNull then Thrown
      else Ok (case getprop r ''raw_text'' of
                 Some (JStr s) \<Rightarrow> s
               | _ \<Rightarrow> normalizeOcrSpaceResult r))"

definition combinedText :: "json \<Rightarrow> json \<Rightarrow> string result" where
  "combinedText frontResp backResp =
     (case raw_text frontResp of
        Thrown \<Rightarrow> Thrown
      | Ok frontRaw \<Rightarrow>
         (case raw_text backResp of
            Thrown \<Rightarrow> Thrown
          | Ok backRaw \<Rightarrow> Ok (frontRaw @ [CHR 0x0A] @ backRaw)))"

definition ocrJson_of :: "string \<Rightarrow> json \<Rightarrow> json \<Rightarrow> json option \<Rightarrow> json" where
  "ocrJson_of text frontResp backResp combinedResp =
     JObj [(''parsed_text'', JStr text), (''front'', frontResp), (''back'', backResp),
           (''combined'', case combinedResp of Some c \<Rightarrow> c | None \<Rightarrow> JObj [])]"

text \<open>Lines 422 to 427.\<close>

definition checkId_of :: "(rat \<Rightarrow> string) \<Rightarrow> json option \<Rightarrow> json \<Rightarrow> string option result" where
  "checkId_of ns combinedResp ocrJson =
     (case combinedResp of
        None \<Rightarrow> Ok (extractCheckId ns ocrJson)
      | Some c \<Rightarrow>
          if truthy c \<and> typeof_object (getprop c ''combined'')
          then (if getprop c ''combined'' = Some JNull then Thrown
                else (case getprop (the (getprop c ''combined'')) ''check_id'' of
                        Some (JStr s) \<Rightarrow> Ok (Some s)
                      | _ \<Rightarrow> Ok (extractCheckId ns ocrJson)))
          else Ok (extractCheckId ns ocrJson))"

text \<open>\<^verbatim>\<open>a ?? b\<close> on values that are null or not.\<close>

fun orElse :: "'a option \<Rightarrow> 'a option \<Rightarrow> 'a option" where
  "orElse (Some x) b = Some x"
| "orElse None b = b"

text \<open>Lines 439 to 454. The results are not null here: reading them has not thrown
  before.\<close>

definition tryStr :: "json \<Rightarrow> string option" where
  "tryStr r = (case getprop r ''amount'' of Some (JStr s) \<Rightarrow> Some s | _ \<Rightarrow> None)"

definition tryCombined :: "json option \<Rightarrow> string option" where
  "tryCombined combinedResp =
     (case combinedResp of
        None \<Rightarrow> None
      | Some c \<Rightarrow>
          if truthy c \<and> typeof_object (getprop c ''combined'')
          then (case getprop (the (getprop c ''combined'')) ''amount'' of
                  Some (JStr s) \<Rightarrow> Some s
                | _ \<Rightarrow> None)
          else None)"

definition amountString_of ::
  "(rat \<Rightarrow> string) \<Rightarrow> json \<Rightarrow> json \<Rightarrow> json option \<Rightarrow> json \<Rightarrow> string option" where
  "amountString_of ns frontResp backResp combinedResp ocrJson =
     orElse (tryStr frontResp)
       (orElse (tryStr backResp)
          (orElse (tryCombined combinedResp) (extractAmount ns ocrJson)))"

text \<open>Lines 456 to 467. \<^verbatim>\<open>r && (...)\<close> is null only when \<open>r\<close> is.\<close>

definition tryBool :: "json \<Rightarrow> bool option" where
  "tryBool r =
     (if truthy r
      then Some (getprop r ''endorsement_present'' = Some (JBool True)
                 \<or> getprop r ''endorsement_present'' = Some (JStr ''true''))
      else None)"

definition endorsementPresent_of :: "json \<Rightarrow> json \<Rightarrow> json \<Rightarrow> bool option" where
  "endorsementPresent_of frontResp backResp ocrJson =
     orElse (tryBool backResp)
       (orElse (tryBool frontResp)
          (orElse (Some (detectEndorsement backResp)) (Some (detectEndorsement ocrJson))))"

text \<open>Lines 469 to 477: the amount in cents. \<^verbatim>\<open>.replace(/[^0-9.-]/g, "")\<close> keeps the
  digits, points and minus signs.\<close>

definition strip_amount :: "string \<Rightarrow> string" where
  "strip_amount s = filter (\<lambda>c. is_digit c \<or> c = CHR ''.'' \<or> c = CHR ''-'') s"

definition amountCents_of :: "string option \<Rightarrow> number option" where
  "amountCents_of amountString =
     (if nonempty amountString
      then (case Number_of (strip_amount (the amountString)) of
              Num parsed \<Rightarrow> Some (Math_round (to_double (parsed * 100)))
            | _ \<Rightarrow> None)
      else None)"

text \<open>Lines 479 to 497: the account number of the destination account, if there is
  one.\<close>

definition destAccount_of :: "env \<Rightarrow> auth_result \<Rightarrow> string option result" where
  "destAccount_of e a =
     (case (if nonempty (supabaseUser_id a)
            then user_findUnique e (the (supabaseUser_id a)) else Ok None) of
        Thrown \<Rightarrow> Thrown
      | Ok appUserId \<Rightarrow>
          (case appUserId of
             None \<Rightarrow> Ok None
           | Some uid \<Rightarrow> if uid = 0 then Ok None else internalAccount_findFirst e uid))"

text \<open>\<^verbatim>\<open>.replace(/[^a-zA-Z0-9-_]/g, "-")\<close>\<close>

definition is_key_char :: "char \<Rightarrow> bool" where
  "is_key_char c =
     (let n = (of_char c :: int)
      in (0x61 \<le> n \<and> n \<le> 0x7A) \<or> (0x41 \<le> n \<and> n \<le> 0x5A) \<or> (0x30 \<le> n \<and> n \<le> 0x39)
         \<or> c = CHR ''-'' \<or> c = CHR ''_'')"

definition forward_of :: "env \<Rightarrow> string \<Rightarrow> string \<Rightarrow> number \<Rightarrow> forward" where
  "forward_of e account_number checkId amountCents =
     \<lparr> fw_url = (case APP_BASE_URL e of Some u \<Rightarrow> u | None \<Rightarrow> []) @ ''/api/transactions'',
       fw_Authorization =
         (if nonempty (INTERNAL_API_KEY e) then ''Bearer '' @ the (INTERNAL_API_KEY e)
          else (case authorization e of Some h \<Rightarrow> h | None \<Rightarrow> [])),
       fw_Idempotency_Key =
         ''check-id-'' @ map (\<lambda>c. if is_key_char c then c else CHR ''-'') checkId,
       fw_destination_account_number = account_number,
       fw_requested_amount = amountCents,
       fw_description = ''Check deposit for check_id='' @ checkId,
       fw_check_number = checkId \<rparr>"

definition created_body ::
  "string \<Rightarrow> string option \<Rightarrow> bool option \<Rightarrow> json \<Rightarrow> json \<Rightarrow> string \<Rightarrow> json option \<Rightarrow> json" where
  "created_body checkId amountString endorsementPresent frontResp backResp text combinedResp =
     JObj ([(''message'', JStr ''Check processed''),
            (''check_id'', JStr checkId),
            (''amount'', case amountString of Some s \<Rightarrow> JStr s | None \<Rightarrow> JNull),
            (''endorsement_present'',
               case endorsementPresent of Some b \<Rightarrow> JBool b | None \<Rightarrow> JNull)]
           @ (if ENABLE_OCR_DEBUG
              then [(''debug'',
                     JObj [(''ocr_front'', frontResp), (''ocr_back'', backResp),
                           (''parsed_text'', JStr text),
                           (''combined'', case combinedResp of Some c \<Rightarrow> c | None \<Rightarrow> JNull)])]
              else []))"

text \<open>Lines 403 to 570: from the recognition results to the response and the deposit
  requests sent. A throw ends in the handler's last \<^verbatim>\<open>catch\<close>. What the deposit request
  comes to is only logged.\<close>

definition process ::
  "(rat \<Rightarrow> string) \<Rightarrow> env \<Rightarrow> auth_result \<Rightarrow> json \<Rightarrow> json \<Rightarrow> json option \<Rightarrow> response \<times> forward list" where
  "process ns e a frontResp backResp combinedResp =
     (case combinedText frontResp backResp of
        Thrown \<Rightarrow> (internal_error, [])
      | Ok text \<Rightarrow>
         (let ocrJson = ocrJson_of text frontResp backResp combinedResp
          in case checkId_of ns combinedResp ocrJson of
               Thrown \<Rightarrow> (internal_error, [])
             | Ok checkId \<Rightarrow>
                 if \<not> nonempty checkId
                 then (error_response 400 ''Could not extract check ID from images.'', [])
                 else
                   (let amountString = amountString_of ns frontResp backResp combinedResp ocrJson;
                        endorsementPresent = endorsementPresent_of frontResp backResp ocrJson;
                        amountCents = amountCents_of amountString
                    in case destAccount_of e a of
                         Thrown \<Rightarrow> (internal_error, [])
                       | Ok destAccount \<Rightarrow>
                           (\<lparr> r_status = 201,
                              r_body = created_body (the checkId) amountString endorsementPresent
                                         frontResp backResp text combinedResp \<rparr>,
                            (case (destAccount, amountCents) of
                               (Some acct, Some cents) \<Rightarrow> [forward_of e acct (the checkId) cents]
                             | _ \<Rightarrow> [])))))"

text \<open>\<^verbatim>\<open>new Response(body, { status })\<close> with a body throws unless the status is from 200
  to 599 and none of 204, 205 and 304. The statuses the handler writes itself are fine;
  the status of a refused authentication is whatever the helper gave, and a throw ends in
  the handler's last \<^verbatim>\<open>catch\<close>.\<close>

definition Response_status_ok :: "nat \<Rightarrow> bool" where
  "Response_status_ok st = (200 \<le> st \<and> st \<le> 599 \<and> st \<noteq> 204 \<and> st \<noteq> 205 \<and> st \<noteq> 304)"

definition POST :: "(rat \<Rightarrow> string) \<Rightarrow> env \<Rightarrow> response \<times> forward list" where
  "POST ns e =
     (case auth e of
        Thrown \<Rightarrow> (internal_error, [])
      | Ok a \<Rightarrow>
          if \<not> auth_ok a
          then (let st = (case auth_status a of Some st \<Rightarrow> st | None \<Rightarrow> 401)
                in if Response_status_ok st
                   then (\<lparr> r_status = st,
                           r_body = (if truthy_opt (auth_body a) then the (auth_body a)
                                     else JObj [(''message'', JStr ''Unauthorized'')]) \<rparr>, [])
                   else (internal_error, []))
          else (case form e of
                  Thrown \<Rightarrow> (internal_error, [])
                | Ok (front, back) \<Rightarrow>
                    if \<not> front \<or> \<not> back
                    then (error_response 400 ''Both 'front' and 'back' images are required.'', [])
                    else (case recognise e of
                            Inl r \<Rightarrow> (r, [])
                          | Inr (frontResp, backResp, combinedResp) \<Rightarrow>
                              process ns e a frontResp backResp combinedResp)))"

section \<open>Runs of digits\<close>

text \<open>The maximal runs of digits of a text, left to right, and their lengths.\<close>

function digit_runs :: "string \<Rightarrow> string list" where
  "digit_runs [] = []"
| "digit_runs (c # s) =
     (if is_digit c then takeWhile is_digit (c # s) # digit_runs (dropWhile is_digit s)
      else digit_runs s)"
  by pat_completeness auto
termination
  by (relation "measure length") (auto simp: length_dropWhile_le less_Suc_eq_le)

definition run_lengths :: "string \<Rightarrow> nat list" where
  "run_lengths s = map length (digit_runs s)"

section \<open>Cents in decimal\<close>

text \<open>The decimal rendering of a number of cents that is not negative: the dollars, a
  point, and two digits of cents.\<close>

definition render_cents :: "int \<Rightarrow> string" where
  "render_cents n =
     show_dec (n div 100) @ ''.'' @ [digit_char (n div 10 mod 10), digit_char (n mod 10)]"

section \<open>Inputs for the examples\<close>

text \<open>A rendering of numbers for the examples: integers render in decimal (the examples
  hold no other number).\<close>

definition ns_integral :: "rat \<Rightarrow> string" where
  "ns_integral q = (if q < 0 then ''-'' else []) @ show_dec \<lfloor>\<bar>q\<bar>\<rfloor>"

text \<open>A storage handle whose insert fails with \<open>e\<close> and whose lookup finds nothing.\<close>

definition tx_failing :: "thrown \<Rightarrow> tx" where
  "tx_failing e = \<lparr> create = (\<lambda>r. Inl e), findFirst = (\<lambda>w. Inr None) \<rparr>"

definition signed_in :: auth_result where
  "signed_in = \<lparr> auth_ok = True, auth_status = None, auth_body = None,
                 supabaseUser_id = Some ''user-1'' \<rparr>"

text \<open>A request of a signed-in user with both images, the vision provider configured
  and answering \<open>c\<close>, and an active account for the deposit.\<close>

definition vision_env :: "json \<Rightarrow> env" where
  "vision_env c =
     \<lparr> auth = Ok signed_in,
       form = Ok (True, True),
       OPENAI_API_KEY = Some ''sk-test'',
       CHECK_OCR_API_URL = None, CHECK_OCR_API_KEY = None,
       INTERNAL_API_KEY = Some ''internal'', APP_BASE_URL = Some ''http://localhost:3000'',
       authorization = None,
       vision_call = Ok c,
       ocr_front_call = TransportFailure, ocr_back_call = TransportFailure,
       user_findUnique = (\<lambda>uid. Ok (Some 42)),
       internalAccount_findFirst = (\<lambda>uid. Ok (Some ''1000200030'')) \<rparr>"

text \<open>Answers of the vision provider: the given front and back, and the combined part
  with the identity.\<close>

definition combined_part :: json where
  "combined_part =
     JObj [(''amount'', JNull), (''check_id'', JStr ''021000021_12345678_789''),
           (''notes'', JNull)]"

definition vision_answer :: "json \<Rightarrow> json \<Rightarrow> json" where
  "vision_answer front back =
     JObj [(''front'', front), (''back'', back), (''combined'', combined_part)]"

definition front_text :: "string \<Rightarrow> json" where
  "front_text t = JObj [(''amount'', JNull), (''raw_text'', JStr t)]"

text \<open>A front that carries the three structured fields of the identity beside its
  transcript, and an answer of the vision provider that holds no combined identity.\<close>

definition front_fields :: "string \<Rightarrow> json" where
  "front_fields t =
     JObj [(''amount'', JNull), (''routing_number'', JStr ''021000021''),
           (''account_number'', JStr ''123456''), (''check_number'', JStr ''789''),
           (''raw_text'', JStr t)]"

definition vision_answer_no_id :: "json \<Rightarrow> json \<Rightarrow> json" where
  "vision_answer_no_id front back =
     JObj [(''front'', front), (''back'', back),
           (''combined'', JObj [(''amount'', JNull), (''check_id'', JNull), (''notes'', JNull)])]"

text \<open>A request of a signed-in user with both images, the plain recognition provider
  configured and answering \<open>f\<close> for the front and \<open>b\<close> for the back.\<close>

definition ocr_env :: "json \<Rightarrow> json \<Rightarrow> env" where
  "ocr_env f b =
     \<lparr> auth = Ok signed_in,
       form = Ok (True, True),
       OPENAI_API_KEY = None,
       CHECK_OCR_API_URL = Some ''https://ocr.example/parse'', CHECK_OCR_API_KEY = Some ''key'',
       INTERNAL_API_KEY = Some ''internal'', APP_BASE_URL = Some ''http://localhost:3000'',
       authorization = None,
       vision_call = Thrown,
       ocr_front_call = Body (Some f), ocr_back_call = Body (Some b),
       user_findUnique = (\<lambda>uid. Ok (Some 42)),
       internalAccount_findFirst = (\<lambda>uid. Ok (Some ''1000200030'')) \<rparr>"

text \<open>A back side with the keyword in its transcript and no structured endorsement
  field.\<close>

definition back_keyword :: json where
  "back_keyword = JObj [(''raw_text'', JStr ''Endorsement: J. Doe'')]"

definition check_deposit :: "string option \<Rightarrow> transaction_data" where
  "check_deposit key =
     \<lparr> idempotency_key = key, transaction_type = ''deposit'', internal_account_id = 7,
       amount = 5050, bill_pay_rule_id = None, transfer_rule_id = None,
       check_number = Some ''021000021_123456_789'', direction = ''inbound'' \<rparr>"

section \<open>Properties of the ledger helpers\<close>

lemma nonempty_iff: "nonempty x \<longleftrightarrow> (\<exists>s. x = Some s \<and> s \<noteq> [])"
  by (cases x) auto

text \<open>
  C10. When both the idempotency key and the check number of the parameters are absent,
  \<open>findExistingTransaction\<close> sends no query to the storage and returns null.
\<close>

theorem findExistingTransaction_no_keys:
  assumes "idempotency_key params = None" and "check_number params = None"
  shows "findExistingTransaction t params = ([], Inr None)"
  using assms by (simp add: findExistingTransaction_def)

theorem findExistingTransaction_no_keys_witness:
  "findExistingTransaction (tx_failing (OtherError ''down''))
     \<lparr> idempotency_key = None, transaction_type = ''deposit'', internal_account_id = 7,
       amount = 5050, bill_pay_rule_id = None, transfer_rule_id = None,
       check_number = None \<rparr> = ([], Inr None)"
  by (rule findExistingTransaction_no_keys) simp_all

text \<open>
  C1 (as the code has it). When the insert of the approved record throws \<open>e\<close>,
  \<open>createApprovedTransaction\<close> answers success with the duplicate flag exactly when the
  data carry a non-empty idempotency key and \<open>e\<close> is the known request error with code
  P2002; every other throw, also P2002 without an idempotency key, is raised again
  unchanged.
\<close>

theorem createApprovedTransaction_insert_fails:
  assumes "create t (row_of d approved) = Inl e"
  shows "createApprovedTransaction t d msg =
           (if nonempty (idempotency_key d) \<and> e = PrismaClientKnownRequestError ''P2002''
            then Inr \<lparr> success = True, message = msg @ '' (idempotency key found).'',
                       duplicate = Some True \<rparr>
            else Inl e)"
  using assms by (simp add: createApprovedTransaction_def)

theorem createApprovedTransaction_insert_fails_witness:
  "createApprovedTransaction (tx_failing (PrismaClientKnownRequestError ''P2002''))
     (check_deposit (Some ''check-id-021000021_123456_789'')) ''Deposit approved'' =
   Inr \<lparr> success = True, message = ''Deposit approved (idempotency key found).'',
         duplicate = Some True \<rparr>"
  using createApprovedTransaction_insert_fails
    [of "tx_failing (PrismaClientKnownRequestError ''P2002'')"
        "check_deposit (Some ''check-id-021000021_123456_789'')"
        "PrismaClientKnownRequestError ''P2002''" "''Deposit approved''"]
  by (simp add: tx_failing_def check_deposit_def)

text \<open>
  C1 as stated fails: an insert of a record that carries a check number and no
  idempotency key, failing with P2002, is not answered with success; the error is raised
  again.
\<close>

theorem createApprovedTransaction_P2002_propagates:
  "createApprovedTransaction (tx_failing (PrismaClientKnownRequestError ''P2002''))
     (check_deposit None) ''Deposit approved'' =
   Inl (PrismaClientKnownRequestError ''P2002'')"
  by (simp add: createApprovedTransaction_def tx_failing_def check_deposit_def)

subsection \<open>Two submissions of one check\<close>

lemma find_append_new:
  "find P rows = None \<Longrightarrow> P r \<Longrightarrow> find P (rows @ [r]) = Some r"
  by (induction rows) (auto split: if_splits)

lemma matches_own_row:
  assumes "nonempty (idempotency_key d)"
  shows "matches (where_of (params_of d)) (row_of d st)"
proof -
  have "truthy_id x = Some i \<Longrightarrow> x = Some i" for x i
    by (cases x) (auto split: if_splits)
  then show ?thesis
    using assms
    by (auto simp: matches_def where_of_def params_of_def row_of_def or_matches_def nonempty_iff
        split: option.splits)
qed

lemma conflicts_own_row:
  assumes "nonempty (idempotency_key d)"
  shows "conflicts (row_of d approved) (row_of d approved)"
  using assms by (auto simp: conflicts_def row_of_def nonempty_iff)

lemma lookup_table:
  assumes "nonempty (idempotency_key d)"
  shows "snd (findExistingTransaction (table_tx rows) (params_of d))
           = Inr (find (matches (where_of (params_of d))) rows)"
  using assms by (simp add: findExistingTransaction_def table_tx_def params_of_def)

lemma submit_step_Received:
  assumes "nonempty (idempotency_key d)"
  shows "submit_step msg d t Received =
           (case find (matches (where_of (params_of d))) t of
              None \<Rightarrow> (t, Not_found)
            | Some found \<Rightarrow>
                (t, Finished (Inr \<lparr> success = True, message = msg, duplicate = Some True \<rparr>)))"
  by (simp add: submit_step_def lookup_table [OF assms])

lemma submit_step_Not_found:
  assumes "nonempty (idempotency_key d)"
  shows "submit_step msg d t Not_found =
           (if list_ex (conflicts (row_of d approved)) t
            then (t, Finished (Inr \<lparr> success = True,
                                     message = msg @ '' (idempotency key found).'',
                                     duplicate = Some True \<rparr>))
            else (t @ [row_of d approved], plain msg))"
  using assms
  by (simp add: submit_step_def table_after_create_def createApprovedTransaction_def
      table_tx_def plain_def)

lemma submit_step_Finished: "submit_step msg d t (Finished x) = (t, Finished x)"
  by (simp add: submit_step_def)

lemma waiting_simps:
  "waiting Received" "waiting Not_found" "\<not> waiting (Finished x)"
  by (simp_all add: waiting_def)

lemma duplicate_or_waiting_simps:
  "duplicate_or_waiting Received" "duplicate_or_waiting Not_found"
  "duplicate_or_waiting (Finished (Inr \<lparr> success = True, message = m, duplicate = Some True \<rparr>))"
  "\<not> duplicate_or_waiting (plain msg)"
  by (simp_all add: duplicate_or_waiting_def waiting_def plain_def)

lemma remaining_plain: "remaining (plain msg) = 0"
  by (simp add: plain_def)

lemma submit_step_consistent:
  assumes key: "nonempty (idempotency_key d)"
    and fresh: "find (matches (where_of (params_of d))) rows = None"
      "\<not> list_ex (conflicts (row_of d approved)) rows"
    and st: "consistent msg d rows (t, p, q)"
    and step: "submit_step msg d t p = (t', p')"
  shows "consistent msg d rows (t', p', q) \<and> remaining p' \<le> remaining p - 1"
proof -
  let ?r = "row_of d approved"
  let ?w = "where_of (params_of d)"
  have found: "find (matches ?w) (rows @ [?r]) = Some ?r"
    using fresh(1) matches_own_row [OF key] by (rule find_append_new)
  have clash: "list_ex (conflicts ?r) (rows @ [?r])"
    using conflicts_own_row [OF key] by (simp add: list_ex_iff)
  show ?thesis
  proof (cases p)
    case Received
    show ?thesis
    proof (cases "t = rows")
      case True
      with step Received fresh(1) have "t' = t" "p' = Not_found"
        by (simp_all add: submit_step_Received [OF key])
      with st Received True show ?thesis
        by (auto simp: consistent_def waiting_simps plain_def)
    next
      case False
      with st have t: "t = rows @ [?r]" and q: "q = plain msg"
        using Received by (auto simp: consistent_def plain_def)
      with step Received found have "t' = t"
        "p' = Finished (Inr \<lparr> success = True, message = msg, duplicate = Some True \<rparr>)"
        by (simp_all add: submit_step_Received [OF key])
      with t q show ?thesis
        by (simp add: consistent_def duplicate_or_waiting_simps)
    qed
  next
    case Not_found
    show ?thesis
    proof (cases "t = rows")
      case True
      with step Not_found fresh(2) have "t' = rows @ [?r]" "p' = plain msg"
        by (simp_all add: submit_step_Not_found [OF key])
      moreover from st True Not_found have "waiting q"
        by (auto simp: consistent_def plain_def)
      ultimately show ?thesis
        by (simp add: consistent_def duplicate_or_waiting_def remaining_plain)
    next
      case False
      with st have t: "t = rows @ [?r]" and q: "q = plain msg"
        using Not_found by (auto simp: consistent_def plain_def)
      with step Not_found clash have "t' = t"
        "p' = Finished (Inr \<lparr> success = True, message = msg @ '' (idempotency key found).'',
                              duplicate = Some True \<rparr>)"
        by (simp_all add: submit_step_Not_found [OF key])
      with t q show ?thesis
        by (simp add: consistent_def duplicate_or_waiting_simps)
    qed
  next
    case (Finished x)
    with step have "t' = t" "p' = p"
      by (simp_all add: submit_step_Finished)
    with st Finished show ?thesis by simp
  qed
qed

lemma consistent_swap:
  "consistent msg d rows (t, p, q) \<longleftrightarrow> consistent msg d rows (t, q, p)"
  by (auto simp: consistent_def)

lemma run_consistent:
  assumes key: "nonempty (idempotency_key d)"
    and fresh: "find (matches (where_of (params_of d))) rows = None"
      "\<not> list_ex (conflicts (row_of d approved)) rows"
  shows "consistent msg d rows (t, p, q) \<Longrightarrow> run msg d sched (t, p, q) = (t', p', q') \<Longrightarrow>
         consistent msg d rows (t', p', q')
         \<and> remaining p' \<le> remaining p - count_list sched True
         \<and> remaining q' \<le> remaining q - count_list sched False"
proof (induction sched arbitrary: t p q)
  case Nil
  then show ?case by simp
next
  case (Cons who sched)
  show ?case
  proof (cases who)
    case True
    obtain t1 p1 where s: "submit_step msg d t p = (t1, p1)"
      by (cases "submit_step msg d t p")
    from submit_step_consistent [OF key fresh Cons.prems(1) s]
    have c: "consistent msg d rows (t1, p1, q)" and r: "remaining p1 \<le> remaining p - 1"
      by auto
    from Cons.prems(2) True s have "run msg d sched (t1, p1, q) = (t', p', q')"
      by simp
    from Cons.IH [OF c this] r True show ?thesis by auto
  next
    case False
    obtain t1 q1 where s: "submit_step msg d t q = (t1, q1)"
      by (cases "submit_step msg d t q")
    from Cons.prems(1) have "consistent msg d rows (t, q, p)"
      by (simp add: consistent_swap)
    from submit_step_consistent [OF key fresh this s]
    have c: "consistent msg d rows (t1, p, q1)" and r: "remaining q1 \<le> remaining q - 1"
      by (simp_all add: consistent_swap)
    from Cons.prems(2) False s have "run msg d sched (t1, p, q1) = (t', p', q')"
      by simp
    from Cons.IH [OF c this] r False show ?thesis by auto
  qed
qed

text \<open>
  C2 (as the code has it, with the table and the calling procedure modelled from the
  design). Two submissions of the same data that carry a non-empty idempotency key run
  against a table that holds no record matching or clashing with them. In every
  interleaving of their lookups and inserts in which both finish, exactly one approved
  record has been added and both callers get a success.
\<close>

theorem concurrent_submissions_with_key:
  assumes "nonempty (idempotency_key d)"
    and "find (matches (where_of (params_of d))) rows = None"
    and "\<not> list_ex (conflicts (row_of d approved)) rows"
    and "2 \<le> count_list sched True" and "2 \<le> count_list sched False"
  shows "\<exists>a b. run msg d sched (rows, Received, Received)
                 = (rows @ [row_of d approved], Finished (Inr a), Finished (Inr b))
               \<and> success a \<and> success b"
proof -
  obtain t p q where r: "run msg d sched (rows, Received, Received) = (t, p, q)"
    by (cases "run msg d sched (rows, Received, Received)")
  have "consistent msg d rows (rows, Received, Received)"
    by (simp add: consistent_def waiting_def)
  from run_consistent [OF assms(1-3) this r] assms(4,5)
  have c: "consistent msg d rows (t, p, q)" and "remaining p = 0" "remaining q = 0"
    by auto
  then obtain x y where "p = Finished x" "q = Finished y"
    by (cases p; cases q) auto
  with c r show ?thesis
    by (auto simp: consistent_def waiting_def duplicate_or_waiting_def plain_def)
qed

theorem concurrent_submissions_with_key_witness:
  "\<exists>a b. run ''Deposit approved'' (check_deposit (Some ''check-id-021000021_123456_789''))
            [True, False, True, False] ([], Received, Received)
          = ([] @ [row_of (check_deposit (Some ''check-id-021000021_123456_789'')) approved],
             Finished (Inr a), Finished (Inr b))
        \<and> success a \<and> success b"
  by (rule concurrent_submissions_with_key) (simp_all add: check_deposit_def row_of_def)

text \<open>
  C2 as stated fails for data with a check number and no idempotency key: when both
  lookups come before both inserts, the second insert fails with P2002, which
  \<open>createApprovedTransaction\<close> raises again, so the second caller gets the error.
\<close>

theorem concurrent_submissions_check_number_only:
  "run ''Deposit approved'' (check_deposit None) [True, False, True, False]
     ([], Received, Received)
   = ([row_of (check_deposit None) approved],
      Finished (Inr \<lparr> success = True, message = ''Deposit approved'', duplicate = None \<rparr>),
      Finished (Inl (PrismaClientKnownRequestError ''P2002'')))"
  by (simp add: submit_step_def findExistingTransaction_def table_tx_def params_of_def
      check_deposit_def where_of_def matches_def or_matches_def table_after_create_def
      createApprovedTransaction_def row_of_def conflicts_def)

section \<open>Properties of the extraction\<close>

text \<open>
  C5 fails on the code. For the flattened text "$1,234.56 due" the currency pattern
  captures "1,234.56", and the replacement of every comma by a point returns
  "1.234.56", not "1234.56": the thousands separator is kept as a second point.
\<close>

theorem extractAmount_thousands_separator:
  "extractAmount ns (JObj [(''parsed_text'', JStr ''$1,234.56 due'')]) = Some ''1.234.56''"
  by code_simp

subsection \<open>Identity from the text\<close>

lemma rx_match_D:
  "rx_match rx_D s = (case s of [] \<Rightarrow> [] | c # t \<Rightarrow> if is_digit c then [t] else [])"
  by (simp add: rx_D_def rx_match.simps(2) is_digit_def split: list.splits)

lemma rx_match_Rep_Suc:
  "rx_match (Rep r (Suc n) (Some (Suc n))) s =
     concat (map (rx_match (Rep r n (Some n))) (filter (\<lambda>t. length t < length s) (rx_match r s)))"
  by (subst rx_match.simps) simp

lemma rx_match_digits_exact:
  "rx_match (Rep rx_D n (Some n)) s \<noteq> [] \<Longrightarrow> n \<le> length (takeWhile is_digit s)"
proof (induction n arbitrary: s)
  case 0
  then show ?case by simp
next
  case (Suc n)
  from Suc.prems obtain c t where s: "s = c # t" and d: "is_digit c"
    and m: "rx_match (Rep rx_D n (Some n)) t \<noteq> []"
    by (cases s) (auto simp: rx_match_Rep_Suc rx_match_D split: if_splits)
  from Suc.IH [OF m] show ?case using s d by simp
qed

lemma rx_at_Eps_Some:
  "rx_at Eps grp s = Some y \<Longrightarrow> rx_match grp s \<noteq> []"
  by (auto simp: rx_at_def rx_match.simps(1))

lemma rx_search_routing_run:
  "rx_search Eps rx_routing s = Some x \<Longrightarrow> \<exists>i. 9 \<le> length (takeWhile is_digit (drop i s))"
proof (induction s)
  case Nil
  then have "rx_match (Rep rx_D 9 (Some 9)) [] \<noteq> []"
    by (auto simp: rx_routing_def dest: rx_at_Eps_Some)
  then have "9 \<le> length (takeWhile is_digit [])"
    by (rule rx_match_digits_exact)
  then show ?case by simp
next
  case (Cons c s)
  show ?case
  proof (cases "rx_at Eps rx_routing (c # s)")
    case None
    with Cons.prems have "rx_search Eps rx_routing s = Some x" by simp
    from Cons.IH [OF this] obtain i where "9 \<le> length (takeWhile is_digit (drop i s))" ..
    then have "9 \<le> length (takeWhile is_digit (drop (Suc i) (c # s)))" by simp
    then show ?thesis ..
  next
    case (Some y)
    then have "rx_match (Rep rx_D 9 (Some 9)) (c # s) \<noteq> []"
      by (auto simp: rx_routing_def dest: rx_at_Eps_Some)
    then have "9 \<le> length (takeWhile is_digit (c # s))"
      by (rule rx_match_digits_exact)
    then have "9 \<le> length (takeWhile is_digit (drop 0 (c # s)))"
      by (simp only: drop_0)
    then show ?thesis ..
  qed
qed

lemma takeWhile_drop_le:
  "length (takeWhile P (drop i xs)) \<le> length (takeWhile P xs) \<or>
   length (takeWhile P xs) < i"
proof (induction xs arbitrary: i)
  case Nil
  then show ?case by simp
next
  case (Cons x xs)
  show ?case
  proof (cases i)
    case 0
    then show ?thesis by simp
  next
    case (Suc j)
    with Cons.IH [of j] show ?thesis by (auto intro: le_SucI)
  qed
qed

lemma drop_past_run:
  "length (takeWhile P xs) \<le> i \<Longrightarrow> drop i xs = drop (i - length (takeWhile P xs)) (dropWhile P xs)"
proof -
  assume a: "length (takeWhile P xs) \<le> i"
  have "drop i xs = drop i (takeWhile P xs @ dropWhile P xs)" by simp
  also have "\<dots> = drop (i - length (takeWhile P xs)) (dropWhile P xs)"
    using a by (simp del: takeWhile_dropWhile_id)
  finally show ?thesis .
qed

lemma long_run_in_digit_runs:
  "n \<le> length (takeWhile is_digit (drop i s)) \<Longrightarrow> 0 < n \<Longrightarrow> \<exists>g\<in>set (digit_runs s). n \<le> length g"
proof (induction s arbitrary: i rule: digit_runs.induct)
  case 1
  then show ?case by simp
next
  case (2 c s)
  show ?case
  proof (cases "is_digit c")
    case False
    with "2.prems" have "i \<noteq> 0" by (cases i) auto
    then obtain j where i: "i = Suc j" by (cases i) auto
    with "2.prems" have "n \<le> length (takeWhile is_digit (drop j s))" by simp
    from "2.IH"(2) [OF False this "2.prems"(2)] show ?thesis using False by simp
  next
    case True
    let ?run = "takeWhile is_digit (c # s)"
    from takeWhile_drop_le [of is_digit i "c # s"]
    show ?thesis
    proof
      assume "length (takeWhile is_digit (drop i (c # s))) \<le> length ?run"
      with "2.prems" have "n \<le> length ?run" by simp
      then show ?thesis using True by simp
    next
      assume lt: "length ?run < i"
      then have "drop i (c # s) = drop (i - length ?run) (dropWhile is_digit (c # s))"
        by (intro drop_past_run) simp
      also have "dropWhile is_digit (c # s) = dropWhile is_digit s" using True by simp
      finally have "n \<le> length (takeWhile is_digit (drop (i - length ?run) (dropWhile is_digit s)))"
        using "2.prems" by simp
      from "2.IH"(1) [OF True this "2.prems"(2)] show ?thesis using True by simp
    qed
  qed
qed

text \<open>
  C4 (as the code has it). For every input that has no complete structured triple of
  routing, account and check number and whose flattened text has no run of nine or more
  consecutive digits, \<open>extractCheckId\<close> returns null.
\<close>

theorem extractCheckId_no_long_run:
  assumes "\<not> (nonempty (structured_routing ns j) \<and> nonempty (structured_account ns j)
              \<and> nonempty (structured_check ns j))"
    and "\<forall>n\<in>set (run_lengths (allText j)). n < 9"
  shows "extractCheckId ns j = None"
proof (cases "rx_search Eps rx_routing (allText j)")
  case None
  with assms(1) show ?thesis by (auto simp: extractCheckId_def Let_def)
next
  case (Some x)
  then obtain i where "9 \<le> length (takeWhile is_digit (drop i (allText j)))"
    using rx_search_routing_run by blast
  then obtain g where "g \<in> set (digit_runs (allText j))" and "9 \<le> length g"
    using long_run_in_digit_runs [of 9 i "allText j"] by auto
  then have "length g \<in> set (run_lengths (allText j))"
    by (simp add: run_lengths_def)
  with assms(2) \<open>9 \<le> length g\<close> show ?thesis by force
qed

theorem extractCheckId_no_long_run_witness:
  "extractCheckId ns_integral (JObj [(''parsed_text'', JStr ''PAY 12345678 1111 22223'')]) = None"
proof -
  let ?j = "JObj [(''parsed_text'', JStr ''PAY 12345678 1111 22223'')]"
  have h1: "\<not> (nonempty (structured_routing ns_integral ?j) \<and> nonempty (structured_account ns_integral ?j)
              \<and> nonempty (structured_check ns_integral ?j))"
    by code_simp
  have h2: "\<forall>n\<in>set (run_lengths (allText ?j)). n < 9"
    by code_simp
  from extractCheckId_no_long_run [OF h1 h2] show ?thesis .
qed

text \<open>
  C4 as stated fails twice. An input with the three structured fields has an identity
  whatever its text holds; and without them a run of ten digits, which is no run of
  exactly nine, gives the pattern its nine digits.
\<close>

theorem extractCheckId_without_nine_digit_run:
  "9 \<notin> set (run_lengths (allText (JObj [(''routing_number'', JStr ''12''),
        (''account_number'', JStr ''34''), (''check_number'', JStr ''56'')])))
   \<and> extractCheckId ns_integral (JObj [(''routing_number'', JStr ''12''),
        (''account_number'', JStr ''34''), (''check_number'', JStr ''56'')]) = Some ''12_34_56''
   \<and> 9 \<notin> set (run_lengths (allText (JObj [(''parsed_text'', JStr ''1234567890 1111 2222'')])))
   \<and> extractCheckId ns_integral (JObj [(''parsed_text'', JStr ''1234567890 1111 2222'')])
       = Some ''123456789_1234567890_1111''"
  by code_simp

section \<open>Properties of the request handler\<close>

lemma getprop_Some_truthy: "getprop c k = Some v \<Longrightarrow> truthy c"
  by (cases c) auto

lemma process_status_cases:
  "r_status (fst (process ns e a f b c)) = 201 \<Longrightarrow>
   \<exists>text cid dest. combinedText f b = Ok text
     \<and> checkId_of ns c (ocrJson_of text f b c) = Ok (Some cid) \<and> cid \<noteq> []
     \<and> destAccount_of e a = Ok dest
     \<and> fst (process ns e a f b c) =
         \<lparr> r_status = 201,
           r_body = created_body cid (amountString_of ns f b c (ocrJson_of text f b c))
                      (endorsementPresent_of f b (ocrJson_of text f b c)) f b text c \<rparr>"
  by (auto simp: process_def Let_def internal_error_def error_response_def nonempty_iff
      split: result.splits if_splits option.splits)

lemma POST_created:
  assumes "auth e = Ok a" and "auth_ok a" and "form e = Ok (True, True)"
    and "recognise e = Inr (f, b, c)"
    and "combinedText f b = Ok text"
    and "checkId_of ns c (ocrJson_of text f b c) = Ok (Some cid)" and "cid \<noteq> []"
    and "destAccount_of e a = Ok dest"
  shows "POST ns e =
           (\<lparr> r_status = 201,
              r_body = created_body cid (amountString_of ns f b c (ocrJson_of text f b c))
                         (endorsementPresent_of f b (ocrJson_of text f b c)) f b text c \<rparr>,
            (case (dest, amountCents_of (amountString_of ns f b c (ocrJson_of text f b c))) of
               (Some acct, Some cents) \<Rightarrow> [forward_of e acct cid cents]
             | _ \<Rightarrow> []))"
  using assms by (simp add: POST_def process_def Let_def split: option.splits)

lemma created_body_fields:
  "getprop (created_body cid amt en f b text c) ''check_id'' = Some (JStr cid)"
  "getprop (created_body cid amt en f b text c) ''amount'' =
     Some (case amt of Some s \<Rightarrow> JStr s | None \<Rightarrow> JNull)"
  "getprop (created_body cid amt en f b text c) ''endorsement_present'' =
     Some (case en of Some x \<Rightarrow> JBool x | None \<Rightarrow> JNull)"
  by (simp_all add: created_body_def)

lemma vision_env_simps:
  "auth (vision_env c) = Ok signed_in"
  "form (vision_env c) = Ok (True, True)"
  "auth_ok signed_in"
  "destAccount_of (vision_env c) signed_in = Ok (Some ''1000200030'')"
  by (simp_all add: vision_env_def signed_in_def destAccount_of_def)

lemma recognise_vision_env:
  "typeof_object (Some f) \<Longrightarrow> typeof_object (Some b) \<Longrightarrow>
   recognise (vision_env (vision_answer f b)) = Inr (f, b, Some (vision_answer f b))"
  by (simp add: vision_env_def recognise_def vision_answer_def)

lemma checkId_vision_answer:
  "checkId_of ns (Some (vision_answer f b)) j = Ok (Some ''021000021_12345678_789'')"
  by (simp add: checkId_of_def vision_answer_def combined_part_def)

lemma POST_no_identity:
  assumes "auth e = Ok a" and "auth_ok a" and "form e = Ok (True, True)"
    and "recognise e = Inr (f, b, c)"
    and "combinedText f b = Ok text"
    and "checkId_of ns c (ocrJson_of text f b c) = Ok None"
  shows "POST ns e = (error_response 400 ''Could not extract check ID from images.'', [])"
  using assms by (simp add: POST_def process_def Let_def)

lemma checkId_vision_answer_no_id:
  "checkId_of ns (Some (vision_answer_no_id f b)) j = Ok (extractCheckId ns j)"
  by (simp add: checkId_of_def vision_answer_no_id_def)

text \<open>
  C9 fails on the code. \<open>extractCheckId\<close> reads the structured fields at the top of its
  argument, and on a front that carries routing_number "021000021", account_number
  "123456" and check_number "789" it gives "021000021_123456_789". The handler, its only
  caller, passes the object that holds the front under the key \<open>front\<close>, where the fields
  are not read: with the vision provider the identity of the response is
  "021000021_123456_123456", taken from the digits of the text, and with the plain
  provider no identity is found and the answer is 400.
\<close>

theorem POST_structured_fields_not_read:
  "extractCheckId ns_integral (front_fields ''PAY TO THE ORDER OF'')
     = Some ''021000021_123456_789''
   \<and> r_status (fst (POST ns_integral
         (vision_env (vision_answer_no_id (front_fields ''PAY TO THE ORDER OF'') (JObj []))))) = 201
   \<and> getprop (r_body (fst (POST ns_integral
         (vision_env (vision_answer_no_id (front_fields ''PAY TO THE ORDER OF'') (JObj []))))))
       ''check_id'' = Some (JStr ''021000021_123456_123456'')
   \<and> fst (POST ns_integral (ocr_env (front_fields ''PAY TO THE ORDER OF'') (JObj [])))
       = error_response 400 ''Could not extract check ID from images.''"
proof -
  let ?f = "front_fields ''PAY TO THE ORDER OF''"
  let ?c = "vision_answer_no_id ?f (JObj [])"
  let ?text = "''PAY TO THE ORDER OF\<newline>''"
  have flat: "extractCheckId ns_integral ?f = Some ''021000021_123456_789''"
    by (simp add: front_fields_def extractCheckId_def structured_routing_def
        structured_account_def structured_check_def coalesce_def)
  have ct: "combinedText ?f (JObj []) = Ok ?text"
    by (simp add: combinedText_def raw_text_def front_fields_def)
  have rv: "recognise (vision_env ?c) = Inr (?f, JObj [], Some ?c)"
    by (simp add: recognise_def vision_env_def vision_answer_no_id_def front_fields_def)
  have ev: "extractCheckId ns_integral (ocrJson_of ?text ?f (JObj []) (Some ?c))
              = Some ''021000021_123456_123456''"
    by code_simp
  have cv: "checkId_of ns_integral (Some ?c) (ocrJson_of ?text ?f (JObj []) (Some ?c))
              = Ok (Some ''021000021_123456_123456'')"
    by (simp add: checkId_vision_answer_no_id ev)
  have ro: "recognise (ocr_env ?f (JObj [])) = Inr (?f, JObj [], None)"
    by (simp add: recognise_def ocr_env_def front_fields_def)
  have eo: "extractCheckId ns_integral (ocrJson_of ?text ?f (JObj []) None) = None"
    by code_simp
  have co: "checkId_of ns_integral None (ocrJson_of ?text ?f (JObj []) None) = Ok None"
    by (simp add: checkId_of_def eo)
  have "POST ns_integral (vision_env ?c) =
          (\<lparr> r_status = 201,
             r_body = created_body ''021000021_123456_123456''
                        (amountString_of ns_integral ?f (JObj []) (Some ?c)
                           (ocrJson_of ?text ?f (JObj []) (Some ?c)))
                        (endorsementPresent_of ?f (JObj [])
                           (ocrJson_of ?text ?f (JObj []) (Some ?c)))
                        ?f (JObj []) ?text (Some ?c) \<rparr>,
           (case (Some ''1000200030'',
                  amountCents_of (amountString_of ns_integral ?f (JObj []) (Some ?c)
                                    (ocrJson_of ?text ?f (JObj []) (Some ?c)))) of
              (Some acct, Some cents) \<Rightarrow>
                [forward_of (vision_env ?c) acct ''021000021_123456_123456'' cents]
            | _ \<Rightarrow> []))"
    by (rule POST_created [where a = signed_in, OF _ _ _ rv ct cv])
       (simp_all add: vision_env_simps)
  moreover have "POST ns_integral (ocr_env ?f (JObj []))
                   = (error_response 400 ''Could not extract check ID from images.'', [])"
    by (rule POST_no_identity [where a = signed_in, OF _ _ _ ro ct co])
       (simp_all add: ocr_env_def vision_env_simps)
  ultimately show ?thesis
    using flat by (simp add: created_body_fields)
qed

theorem POST_structured_fields_not_read_witness:
  "getprop (r_body (fst (POST ns_integral
       (vision_env (vision_answer_no_id (front_fields ''PAY TO THE ORDER OF'') (JObj []))))))
     ''check_id''
   \<noteq> map_option JStr (extractCheckId ns_integral (front_fields ''PAY TO THE ORDER OF''))"
  using POST_structured_fields_not_read by simp

text \<open>
  C3. When the answer of the combined provider has a string in \<open>combined.check_id\<close>, the
  handler takes that string as the check identity, whatever \<open>extractCheckId\<close> would
  find in the recognition results, and a response with status 201 carries it as
  \<open>check_id\<close>.
\<close>

theorem checkId_combined_verbatim:
  assumes "getprop c ''combined'' = Some comb"
    and "getprop comb ''check_id'' = Some (JStr s)"
  shows "checkId_of ns (Some c) ocrJson = Ok (Some s)
         \<and> (r_status (fst (process ns e a f b (Some c))) = 201 \<longrightarrow>
              getprop (r_body (fst (process ns e a f b (Some c)))) ''check_id'' = Some (JStr s))"
proof -
  have comb: "comb \<noteq> JNull" using assms(2) by auto
  have t: "truthy c" using assms(1) by (rule getprop_Some_truthy)
  have o: "typeof_object (Some comb)" using assms(2) by (cases comb) auto
  have cid: "checkId_of ns (Some c) j = Ok (Some s)" for j
    using assms t o comb by (simp add: checkId_of_def)
  show ?thesis
  proof (intro conjI impI)
    show "checkId_of ns (Some c) ocrJson = Ok (Some s)" by (rule cid)
  next
    assume "r_status (fst (process ns e a f b (Some c))) = 201"
    from process_status_cases [OF this] cid
    show "getprop (r_body (fst (process ns e a f b (Some c)))) ''check_id'' = Some (JStr s)"
      by (auto simp: created_body_def)
  qed
qed

theorem checkId_combined_verbatim_witness:
  "checkId_of ns_integral (Some (vision_answer (JObj []) (JObj []))) JNull
     = Ok (Some ''021000021_12345678_789'')
   \<and> r_status (fst (process ns_integral (vision_env (vision_answer (JObj []) (JObj [])))
         signed_in (JObj []) (JObj []) (Some (vision_answer (JObj []) (JObj []))))) = 201
   \<and> getprop (r_body (fst (process ns_integral (vision_env (vision_answer (JObj []) (JObj [])))
         signed_in (JObj []) (JObj []) (Some (vision_answer (JObj []) (JObj []))))))
       ''check_id'' = Some (JStr ''021000021_12345678_789'')"
proof -
  let ?c = "vision_answer (JObj []) (JObj [])"
  have h1: "getprop ?c ''combined'' = Some combined_part"
    by (simp add: vision_answer_def)
  have h2: "getprop combined_part ''check_id'' = Some (JStr ''021000021_12345678_789'')"
    by (simp add: combined_part_def)
  have st: "r_status (fst (process ns_integral (vision_env ?c) signed_in (JObj []) (JObj []) (Some ?c))) = 201"
    by (simp add: process_def combinedText_def raw_text_def checkId_vision_answer vision_env_simps Let_def)
  from checkId_combined_verbatim [OF h1 h2, of ns_integral JNull "vision_env ?c" signed_in "JObj []" "JObj []"] st
  show ?thesis by simp
qed

text \<open>
  C6 fails on the code. \<^verbatim>\<open>tryBool(backResp)\<close> is a boolean for every back-side result, and
  \<^verbatim>\<open>??\<close> passes on only null and undefined, so the keyword search is never reached: for
  a back side whose text holds "Endorsement" and that has no structured endorsement field,
  \<open>detectEndorsement\<close> finds the keyword and the response says
  \<open>endorsement_present: false\<close>.
\<close>

theorem POST_endorsement_keyword_ignored:
  "detectEndorsement back_keyword
   \<and> getprop (r_body (fst (POST ns_integral
         (vision_env (vision_answer (front_text ''PAY TO THE ORDER OF'') back_keyword)))))
       ''endorsement_present'' = Some (JBool False)"
proof -
  let ?f = "front_text ''PAY TO THE ORDER OF''"
  let ?c = "vision_answer ?f back_keyword"
  let ?text = "''PAY TO THE ORDER OF\<newline>Endorsement: J. Doe''"
  have d: "detectEndorsement back_keyword" by code_simp
  have ct: "combinedText ?f back_keyword = Ok ?text"
    by (simp add: combinedText_def raw_text_def front_text_def back_keyword_def)
  have tb: "tryBool back_keyword = Some False"
    by (simp add: tryBool_def back_keyword_def)
  have o: "typeof_object (Some ?f)" "typeof_object (Some back_keyword)"
    by (simp_all add: front_text_def back_keyword_def)
  from POST_created [of "vision_env ?c" signed_in ?f back_keyword "Some ?c" ?text
      ns_integral "''021000021_12345678_789''" "Some ''1000200030''"] ct o
  have "fst (POST ns_integral (vision_env ?c)) =
          \<lparr> r_status = 201,
            r_body = created_body ''021000021_12345678_789''
                       (amountString_of ns_integral ?f back_keyword (Some ?c)
                          (ocrJson_of ?text ?f back_keyword (Some ?c)))
                       (endorsementPresent_of ?f back_keyword
                          (ocrJson_of ?text ?f back_keyword (Some ?c)))
                       ?f back_keyword ?text (Some ?c) \<rparr>"
    by (simp add: vision_env_simps recognise_vision_env checkId_vision_answer)
  then show ?thesis
    using d by (simp add: created_body_fields endorsementPresent_of_def tb)
qed

theorem POST_endorsement_keyword_ignored_witness:
  "getprop (r_body (fst (POST ns_integral
       (vision_env (vision_answer (front_text ''PAY TO THE ORDER OF'') back_keyword)))))
     ''endorsement_present'' \<noteq> Some (JBool (detectEndorsement back_keyword))"
  using POST_endorsement_keyword_ignored by simp

text \<open>
  C7 (as the code has it). When the identity is extracted, the amount in cents is null and
  the lookups of the user and the account do not throw, the handler answers 201 and sends
  no deposit request; the \<open>amount\<close> of the body is the extracted amount string, and null
  exactly when no amount string was extracted.
\<close>

theorem POST_amount_unavailable:
  assumes "auth e = Ok a" and "auth_ok a" and "form e = Ok (True, True)"
    and "recognise e = Inr (f, b, c)"
    and "combinedText f b = Ok text"
    and "checkId_of ns c (ocrJson_of text f b c) = Ok (Some cid)" and "cid \<noteq> []"
    and "amountCents_of (amountString_of ns f b c (ocrJson_of text f b c)) = None"
    and "destAccount_of e a = Ok dest"
  shows "snd (POST ns e) = []
         \<and> r_status (fst (POST ns e)) = 201
         \<and> getprop (r_body (fst (POST ns e))) ''amount'' =
             Some (case amountString_of ns f b c (ocrJson_of text f b c) of
                     Some s \<Rightarrow> JStr s | None \<Rightarrow> JNull)"
  using POST_created [OF assms(1-7) assms(9)] assms(8)
  by (simp add: created_body_fields split: option.splits)

theorem POST_amount_unavailable_witness:
  "snd (POST ns_integral (vision_env (vision_answer (JObj []) (JObj [])))) = []
   \<and> r_status (fst (POST ns_integral (vision_env (vision_answer (JObj []) (JObj []))))) = 201
   \<and> getprop (r_body (fst (POST ns_integral (vision_env (vision_answer (JObj []) (JObj []))))))
        ''amount'' = Some JNull"
proof -
  let ?c = "vision_answer (JObj []) (JObj [])"
  let ?text = "''\<newline>''"
  let ?j = "ocrJson_of ?text (JObj []) (JObj []) (Some ?c)"
  have ct: "combinedText (JObj []) (JObj []) = Ok ?text"
    by (simp add: combinedText_def raw_text_def)
  have amt: "amountString_of ns_integral (JObj []) (JObj []) (Some ?c) ?j = None"
    by code_simp
  have cents: "amountCents_of (amountString_of ns_integral (JObj []) (JObj []) (Some ?c) ?j) = None"
    by (simp add: amt amountCents_of_def)
  from POST_amount_unavailable [of "vision_env ?c" signed_in "JObj []" "JObj []" "Some ?c" ?text
      ns_integral "''021000021_12345678_789''" "Some ''1000200030''"] cents ct
  show ?thesis
    by (simp add: vision_env_simps recognise_vision_env checkId_vision_answer amt)
qed

text \<open>
  C7 as stated fails where the amount is extracted and cannot be parsed: for the front
  text "$1,234.56" the identity is extracted and the amount in cents is null, and the body
  of the 201 response carries the amount "1.234.56", not null.
\<close>

theorem POST_unparsable_amount_reported:
  "checkId_of ns_integral (Some (vision_answer (front_text ''$1,234.56'') (JObj [])))
     (ocrJson_of ''$1,234.56\<newline>'' (front_text ''$1,234.56'') (JObj [])
        (Some (vision_answer (front_text ''$1,234.56'') (JObj []))))
     = Ok (Some ''021000021_12345678_789'')
   \<and> amountCents_of (amountString_of ns_integral (front_text ''$1,234.56'') (JObj [])
        (Some (vision_answer (front_text ''$1,234.56'') (JObj [])))
        (ocrJson_of ''$1,234.56\<newline>'' (front_text ''$1,234.56'') (JObj [])
           (Some (vision_answer (front_text ''$1,234.56'') (JObj []))))) = None
   \<and> r_status (fst (POST ns_integral
        (vision_env (vision_answer (front_text ''$1,234.56'') (JObj []))))) = 201
   \<and> getprop (r_body (fst (POST ns_integral
        (vision_env (vision_answer (front_text ''$1,234.56'') (JObj [])))))) ''amount''
       = Some (JStr ''1.234.56'')"
proof -
  let ?f = "front_text ''$1,234.56''"
  let ?c = "vision_answer ?f (JObj [])"
  let ?text = "''$1,234.56\<newline>''"
  let ?j = "ocrJson_of ?text ?f (JObj []) (Some ?c)"
  have ct: "combinedText ?f (JObj []) = Ok ?text"
    by (simp add: combinedText_def raw_text_def front_text_def)
  have amt: "amountString_of ns_integral ?f (JObj []) (Some ?c) ?j = Some ''1.234.56''"
    by code_simp
  have cents: "amountCents_of (Some ''1.234.56'') = None"
    by code_simp
  have f: "typeof_object (Some ?f)" by (simp add: front_text_def)
  from POST_created [of "vision_env ?c" signed_in ?f "JObj []" "Some ?c" ?text
      ns_integral "''021000021_12345678_789''" "Some ''1000200030''"] ct f
  have "POST ns_integral (vision_env ?c) =
          (\<lparr> r_status = 201,
             r_body = created_body ''021000021_12345678_789'' (Some ''1.234.56'')
                        (endorsementPresent_of ?f (JObj []) ?j) ?f (JObj []) ?text (Some ?c) \<rparr>, [])"
    by (simp add: vision_env_simps recognise_vision_env checkId_vision_answer amt cents)
  then show ?thesis
    using amt cents by (simp add: created_body_fields checkId_vision_answer)
qed

section \<open>Properties of the amount in cents\<close>

subsection \<open>Rounding to a double\<close>

lemma pow2_powi: "pow2 e = 2 powi e"
  by (simp add: pow2_def power_int_def inverse_eq_divide power_one_over)

lemma pow2_pos: "0 < pow2 e"
  by (simp add: pow2_powi)

lemma pow2_add: "pow2 (i + j) = pow2 i * pow2 j"
  by (simp add: pow2_powi power_int_add)

lemma pow2_mono: "i \<le> j \<Longrightarrow> pow2 i \<le> pow2 j"
  by (simp add: pow2_powi power_int_increasing)

lemma pow2_less_cancel: "pow2 i < pow2 j \<Longrightarrow> i < j"
  using pow2_mono [of j i] by (cases "i < j") auto

lemma pow2_nat: "0 \<le> e \<Longrightarrow> pow2 e = 2 ^ nat e"
  by (simp add: pow2_def)

lemma floorlog2_bounds:
  assumes "0 < q"
  shows "pow2 (floorlog2 q) \<le> q" and "q < pow2 (floorlog2 q + 1)"
proof -
  obtain p d where qo: "quotient_of q = (p, d)" by (cases "quotient_of q")
  then have d: "0 < d" and q: "q = of_int p / of_int d"
    by (auto dest: quotient_of_denom_pos quotient_of_div)
  with assms have p: "0 < p"
    by (simp add: zero_less_divide_iff)
  let ?bp = "bitlen p" and ?bd = "bitlen d"
  have "?bp \<noteq> 0" and "?bd \<noteq> 0"
    using p d by (simp_all add: bitlen_eq_zero_iff)
  with bitlen_nonneg [of p] bitlen_nonneg [of d]
  have bp: "1 \<le> ?bp" and bd: "1 \<le> ?bd"
    by linarith+
  from bitlen_bounds [OF p] have "2 ^ nat (?bp - 1) \<le> p" and "p < 2 ^ nat ?bp"
    by auto
  then have "(of_int (2 ^ nat (?bp - 1)) :: rat) \<le> of_int p"
    and "(of_int p :: rat) < of_int (2 ^ nat ?bp)"
    by (simp_all only: of_int_le_iff of_int_less_iff)
  then have p1: "pow2 (?bp - 1) \<le> of_int p" and p2: "of_int p < pow2 ?bp"
    using bp by (simp_all add: pow2_nat)
  from bitlen_bounds [OF d] have "2 ^ nat (?bd - 1) \<le> d" and "d < 2 ^ nat ?bd"
    by auto
  then have "(of_int (2 ^ nat (?bd - 1)) :: rat) \<le> of_int d"
    and "(of_int d :: rat) < of_int (2 ^ nat ?bd)"
    by (simp_all only: of_int_le_iff of_int_less_iff)
  then have d1: "pow2 (?bd - 1) \<le> of_int d" and d2: "of_int d < pow2 ?bd"
    using bd by (simp_all add: pow2_nat)
  let ?k = "?bp - ?bd"
  have dpos: "(0::rat) < of_int d" using d by simp
  have "q * of_int d = of_int p" using q dpos by simp
  have up: "q < pow2 (?k + 1)"
  proof -
    have "of_int p < pow2 ?bp" by (rule p2)
    also have "\<dots> = pow2 (?k + 1) * pow2 (?bd - 1)"
      by (simp flip: pow2_add)
    also have "\<dots> \<le> pow2 (?k + 1) * of_int d"
      using d1 pow2_pos [of "?k + 1"] by (simp add: mult_left_mono)
    finally show ?thesis
      using dpos by (simp add: q pos_divide_less_eq)
  qed
  have lo: "pow2 (?k - 1) < q"
  proof -
    have "pow2 (?k - 1) * of_int d < pow2 (?k - 1) * pow2 ?bd"
      using d2 pow2_pos [of "?k - 1"] by (simp add: mult_strict_left_mono)
    also have "\<dots> = pow2 (?bp - 1)"
      by (simp flip: pow2_add)
    also have "\<dots> \<le> of_int p" by (rule p1)
    finally show ?thesis
      using dpos by (simp add: q pos_less_divide_eq)
  qed
  have fl: "floorlog2 q = (if pow2 ?k \<le> q then ?k else ?k - 1)"
    by (simp add: floorlog2_def qo)
  show "pow2 (floorlog2 q) \<le> q"
    using lo by (simp add: fl)
  show "q < pow2 (floorlog2 q + 1)"
    using up by (simp add: fl not_le)
qed

lemma round_half_even_close: "\<bar>of_int (round_half_even t) - t\<bar> \<le> 1 / 2"
proof -
  have "of_int \<lfloor>t\<rfloor> \<le> t" "t < of_int \<lfloor>t\<rfloor> + 1"
    by linarith+
  then show ?thesis
    by (auto simp: round_half_even_def Let_def)
qed

lemma to_double_error:
  assumes "pow2 (- 1022) \<le> q" and "q < pow2 1023"
  shows "\<exists>v. to_double q = Num v \<and> \<bar>v - q\<bar> \<le> q * pow2 (- 53)"
proof -
  have qpos: "0 < q" using assms(1) pow2_pos [of "- 1022"] by linarith
  let ?L = "floorlog2 q"
  have L1: "pow2 ?L \<le> q" and L2: "q < pow2 (?L + 1)"
    using floorlog2_bounds [OF qpos] by auto
  have "pow2 (- 1022) < pow2 (?L + 1)" using assms(1) L2 by linarith
  then have Llo: "- 1022 \<le> ?L" using pow2_less_cancel by fastforce
  have "pow2 ?L < pow2 1023" using assms(2) L1 by linarith
  then have Lhi: "?L < 1023" by (rule pow2_less_cancel)
  let ?e = "?L - 52"
  have e: "max (?L - 52) (- 1074) = ?e" using Llo by simp
  let ?t = "q / pow2 ?e"
  let ?m = "round_half_even ?t"
  let ?v = "of_int ?m * pow2 ?e"
  have epos: "0 < pow2 ?e" by (rule pow2_pos)
  have close: "\<bar>of_int ?m - ?t\<bar> \<le> 1 / 2" by (rule round_half_even_close)
  have "\<bar>?v - q\<bar> = \<bar>of_int ?m - ?t\<bar> * pow2 ?e"
  proof -
    have "?v - q = (of_int ?m - ?t) * pow2 ?e"
      using epos by (simp add: field_simps)
    then show ?thesis using epos by (simp add: abs_mult)
  qed
  also have "\<dots> \<le> 1 / 2 * pow2 ?e"
    using close epos by (simp add: mult_right_mono)
  also have "\<dots> = pow2 ?L * pow2 (- 53)"
  proof -
    have "pow2 ?e = pow2 ?L * pow2 (- 52)"
      by (simp flip: pow2_add)
    moreover have "1 / 2 * pow2 (- 52) = pow2 (- 53)"
      by (simp add: pow2_def)
    ultimately show ?thesis by simp
  qed
  also have "\<dots> \<le> q * pow2 (- 53)"
    using L1 pow2_pos [of "- 53"] by (simp add: mult_right_mono)
  finally have err: "\<bar>?v - q\<bar> \<le> q * pow2 (- 53)" .
  have "?v \<le> q + q * pow2 (- 53)" using err by linarith
  also have "\<dots> < pow2 1023 + pow2 1023 * pow2 (- 53)"
    using assms(2) pow2_pos [of "- 53"] by (simp add: add_strict_mono mult_strict_right_mono)
  also have "\<dots> \<le> pow2 1024"
    by (simp add: pow2_def)
  finally have fin: "\<not> pow2 1024 \<le> ?v" by simp
  have "to_double q = Num ?v"
    using qpos fin by (simp add: to_double_def Let_def e del: max.absorb1 max.absorb2)
  with err show ?thesis by blast
qed

subsection \<open>Reading a rendered amount\<close>

lemma digit_range: "0 \<le> d \<Longrightarrow> d < 10 \<Longrightarrow> d \<in> {0, 1, 2, 3, 4, 5, 6, 7, 8, 9 :: int}"
  by simp presburger

lemma digit_char_values:
  "digit_char 0 = CHR ''0''" "digit_char 1 = CHR ''1''" "digit_char 2 = CHR ''2''"
  "digit_char 3 = CHR ''3''" "digit_char 4 = CHR ''4''" "digit_char 5 = CHR ''5''"
  "digit_char 6 = CHR ''6''" "digit_char 7 = CHR ''7''" "digit_char 8 = CHR ''8''"
  "digit_char 9 = CHR ''9''"
  by (simp_all add: digit_char_def char_of_def)

lemma digit_char_is_digit: "0 \<le> d \<Longrightarrow> d < 10 \<Longrightarrow> is_digit (digit_char d)"
  by (drule (1) digit_range) (auto simp: digit_char_values is_digit_def)

lemma digit_val_digit_char: "0 \<le> d \<Longrightarrow> d < 10 \<Longrightarrow> digit_val (digit_char d) = d"
  by (drule (1) digit_range) (auto simp: digit_char_values digit_val_def)

lemma is_digit_not_point: "is_digit c \<Longrightarrow> c \<noteq> CHR ''.'' \<and> c \<noteq> CHR ''-''"
  by (auto simp: is_digit_def)

lemma digits_val_snoc: "digits_val (xs @ [c]) = 10 * digits_val xs + digit_val c"
  by (simp add: digits_val_def)

lemma show_dec_digits:
  "0 \<le> n \<Longrightarrow> list_all is_digit (show_dec n) \<and> show_dec n \<noteq> [] \<and> digits_val (show_dec n) = n"
proof (induction n rule: show_dec.induct)
  case (1 n)
  show ?case
  proof (cases "n < 10")
    case True
    with "1.prems" show ?thesis
      by (subst (1 2 3) show_dec.simps)
         (simp add: digit_char_is_digit digit_val_digit_char digits_val_def)
  next
    case False
    with "1.prems" "1.IH" have ih: "list_all is_digit (show_dec (n div 10))"
      "digits_val (show_dec (n div 10)) = n div 10"
      by auto
    have d: "0 \<le> n mod 10" "n mod 10 < 10" by auto
    show ?thesis
      using False ih d
      by (subst (1 2 3) show_dec.simps)
         (simp add: digit_char_is_digit digit_val_digit_char digits_val_snoc)
  qed
qed

lemma render_cents_parts:
  assumes "0 \<le> n"
  shows "list_all is_digit (show_dec (n div 100))"
    and "show_dec (n div 100) \<noteq> []"
    and "digits_val (show_dec (n div 100)) = n div 100"
    and "is_digit (digit_char (n div 10 mod 10))"
    and "is_digit (digit_char (n mod 10))"
    and "digits_val [digit_char (n div 10 mod 10), digit_char (n mod 10)] = n mod 100"
proof -
  have "0 \<le> n div 100" using assms by simp
  from show_dec_digits [OF this]
  show "list_all is_digit (show_dec (n div 100))" "show_dec (n div 100) \<noteq> []"
    "digits_val (show_dec (n div 100)) = n div 100"
    by auto
  have d: "0 \<le> n div 10 mod 10" "n div 10 mod 10 < 10" "0 \<le> n mod 10" "n mod 10 < 10"
    by auto
  then show "is_digit (digit_char (n div 10 mod 10))" "is_digit (digit_char (n mod 10))"
    by (auto intro: digit_char_is_digit)
  have "digits_val [digit_char (n div 10 mod 10), digit_char (n mod 10)]
          = 10 * (n div 10 mod 10) + n mod 10"
    using d by (simp add: digits_val_def digit_val_digit_char)
  also have "\<dots> = n mod (10 * 10)" by (rule zmod_zmult2_eq [symmetric]) simp
  also have "\<dots> = n mod 100" by simp
  finally show "digits_val [digit_char (n div 10 mod 10), digit_char (n mod 10)] = n mod 100" .
qed

lemma strip_amount_render_cents:
  assumes "0 \<le> n"
  shows "strip_amount (render_cents n) = render_cents n"
  using render_cents_parts [OF assms]
  by (auto simp: strip_amount_def render_cents_def list_all_iff filter_id_conv)

lemma decimal_value_render_cents:
  assumes "0 \<le> n"
  shows "decimal_value (render_cents n) = Some (of_int n / 100)"
proof -
  let ?ip = "show_dec (n div 100)"
  let ?fp = "[digit_char (n div 10 mod 10), digit_char (n mod 10)]"
  note parts = render_cents_parts [OF assms]
  have r: "render_cents n = ?ip @ CHR ''.'' # ?fp"
    by (simp add: render_cents_def)
  have all: "\<And>c. c \<in> set ?ip \<Longrightarrow> is_digit c"
    using parts(1) by (simp add: list_all_iff)
  have np: "\<not> is_digit CHR ''.''" by (simp add: is_digit_def)
  have tw: "takeWhile is_digit (render_cents n) = ?ip"
    unfolding r using all np by (simp add: takeWhile_append2)
  have dw: "dropWhile is_digit (render_cents n) = CHR ''.'' # ?fp"
    unfolding r using all np by (simp add: dropWhile_append2)
  have "decimal_value (render_cents n)
          = Some (of_int (n div 100) + of_int (n mod 100) / 10 ^ 2)"
    using parts by (simp add: decimal_value_def tw dw Let_def del: digits_val_def)
  also have "of_int (n div 100) + of_int (n mod 100) / 10 ^ 2 = (of_int n / 100 :: rat)"
  proof -
    have "(of_int n :: rat) = of_int (100 * (n div 100) + n mod 100)" by simp
    also have "\<dots> = 100 * of_int (n div 100) + of_int (n mod 100)"
      by (simp only: of_int_add of_int_mult of_int_numeral)
    finally show ?thesis by simp
  qed
  finally show ?thesis .
qed

lemma Number_of_render_cents:
  assumes "0 \<le> n"
  shows "Number_of (strip_amount (render_cents n)) = to_double (of_int n / 100)"
proof -
  note parts = render_cents_parts [OF assms]
  obtain c cs where s: "show_dec (n div 100) = c # cs"
    using parts(2) by (cases "show_dec (n div 100)") auto
  with parts(1) have "is_digit c" by simp
  then have c: "c \<noteq> CHR ''-''" by (simp add: is_digit_not_point)
  have r: "render_cents n = c # (cs @ ''.'' @ [digit_char (n div 10 mod 10), digit_char (n mod 10)])"
    by (simp add: render_cents_def s)
  have "Number_of (render_cents n) =
          (case decimal_value (render_cents n) of None \<Rightarrow> NaN | Some q \<Rightarrow> to_double q)"
    using c by (subst (1) r) (simp add: Number_of_def r)
  then show ?thesis
    using assms by (simp add: strip_amount_render_cents decimal_value_render_cents)
qed

lemma nonempty_render_cents: "nonempty (Some (render_cents n))"
  by (simp add: render_cents_def)

lemma double_round_trip_bounds:
  fixes N v w :: rat
  assumes "1 \<le> N" and "N \<le> 2251799813685247"
    and "\<bar>v - N / 100\<bar> \<le> N / 100 * (1 / 9007199254740992)"
  shows "1 / 200 \<le> v" and "v < 2251799813685248"
    and "\<bar>w - v * 100\<bar> \<le> v * 100 * (1 / 9007199254740992) \<Longrightarrow> N \<le> w + 1 / 2"
    and "\<bar>w - v * 100\<bar> \<le> v * 100 * (1 / 9007199254740992) \<Longrightarrow> w + 1 / 2 < N + 1"
  using assms by linarith+

text \<open>
  C8 (as the code has it). For every number of cents \<open>n\<close> from 0 up to, not including,
  \<open>2 ^ 51\<close>, the amount in cents computed from the decimal rendering of \<open>n\<close> with two
  fractional digits is \<open>n\<close> again; so "50.50" gives 5050 and "100.00" gives 10000.
\<close>

theorem canonicalize_rendered_cents:
  assumes "0 \<le> n" and "n < 2 ^ 51"
  shows "amountCents_of (Some (render_cents n)) = Some (Num (of_int n))"
proof (cases "n = 0")
  case True
  have "Number_of (strip_amount (render_cents 0)) = Num 0"
    using Number_of_render_cents [of 0] by (simp add: to_double_def)
  moreover have "\<lfloor>1 / 2 :: rat\<rfloor> = 0"
    by (rule floor_unique) simp_all
  moreover have "render_cents 0 \<noteq> []"
    by (simp add: render_cents_def)
  ultimately show ?thesis
    using True by (simp add: amountCents_of_def to_double_def)
next
  case False
  with assms have n1: "1 \<le> n" by simp
  define N :: rat where "N = of_int n"
  have u: "pow2 (- 53) = 1 / 9007199254740992" by (simp add: pow2_def)
  have "n \<le> 2 ^ 51 - 1" using assms(2) by simp
  with n1 have "(of_int 1 :: rat) \<le> of_int n" and "(of_int n :: rat) \<le> of_int (2 ^ 51 - 1)"
    by (simp_all only: of_int_le_iff)
  then have N: "1 \<le> N" "N \<le> 2251799813685247"
    by (simp_all add: N_def)
  have q1: "pow2 (- 1022) \<le> N / 100"
  proof -
    have "pow2 (- 1022) \<le> pow2 (- 7)" by (rule pow2_mono) simp
    also have "\<dots> \<le> 1 / 100" by (simp add: pow2_def)
    also have "\<dots> \<le> N / 100" using N by simp
    finally show ?thesis .
  qed
  have q2: "N / 100 < pow2 1023"
  proof -
    have "N / 100 < 2 ^ 51" using N by simp
    also have "\<dots> = pow2 51" by (simp add: pow2_def)
    also have "\<dots> \<le> pow2 1023" by (rule pow2_mono) simp
    finally show ?thesis .
  qed
  from to_double_error [OF q1 q2] obtain v
    where v: "to_double (N / 100) = Num v"
      and verr: "\<bar>v - N / 100\<bar> \<le> N / 100 * (1 / 9007199254740992)"
    unfolding u by blast
  note b = double_round_trip_bounds [OF N verr]
  have w1: "pow2 (- 1022) \<le> v * 100"
  proof -
    have "pow2 (- 1022) \<le> pow2 (- 1)" by (rule pow2_mono) simp
    also have "\<dots> \<le> v * 100" using b(1) by (simp add: pow2_def)
    finally show ?thesis .
  qed
  have w2: "v * 100 < pow2 1023"
  proof -
    have "v * 100 < 2 ^ 58" using b(2) by simp
    also have "\<dots> = pow2 58" by (simp add: pow2_def)
    also have "\<dots> \<le> pow2 1023" by (rule pow2_mono) simp
    finally show ?thesis .
  qed
  from to_double_error [OF w1 w2] obtain w
    where w: "to_double (v * 100) = Num w"
      and werr: "\<bar>w - v * 100\<bar> \<le> v * 100 * (1 / 9007199254740992)"
    unfolding u by blast
  from b(3) [OF werr] b(4) [OF werr]
  have "of_int n \<le> w + 1 / 2" and "w + 1 / 2 < of_int n + 1"
    by (simp_all only: N_def)
  then have "\<lfloor>w + 1 / 2\<rfloor> = n"
    by (rule floor_unique)
  moreover have "render_cents n \<noteq> []"
    by (simp add: render_cents_def)
  ultimately show ?thesis
    using assms(1) v w
    by (simp add: amountCents_of_def Number_of_render_cents N_def)
qed

theorem canonicalize_rendered_cents_witness:
  "render_cents 5050 = ''50.50'' \<and> amountCents_of (Some ''50.50'') = Some (Num 5050)
   \<and> render_cents 10000 = ''100.00'' \<and> amountCents_of (Some ''100.00'') = Some (Num 10000)"
proof -
  have r1: "render_cents 5050 = ''50.50''" by code_simp
  have r2: "render_cents 10000 = ''100.00''" by code_simp
  from canonicalize_rendered_cents [of 5050] canonicalize_rendered_cents [of 10000]
  show ?thesis by (simp add: r1 r2)
qed

text \<open>
  C8 as stated fails for large amounts, which doubles do not hold exactly: the rendering
  of 9007199254740993 cents is read back as 9007199254740994.
\<close>

theorem canonicalize_large_cents:
  "render_cents 9007199254740993 = ''90071992547409.93''
   \<and> amountCents_of (Some ''90071992547409.93'') = Some (Num 9007199254740994)"
  by code_simp

end
